theory Spec2Isabelle
  imports Main "HOL-Library.Word"
begin

section \<open>The room coordinator of src/src/multiplayer.mjs\<close>

text \<open>
  The development embeds the \<^verbatim>\<open>ChatRoom\<close> durable object: \<^verbatim>\<open>fetch\<close>,
  \<^verbatim>\<open>handleSession\<close> and the closures \<^verbatim>\<open>handleSession\<close> creates for one connection
  (the three send primitives, \<^verbatim>\<open>handleBinaryMessage\<close>, the dead-hand listeners, the
  message listener, the close handler), together with \<^verbatim>\<open>_pauseWebSocket\<close> and
  \<^verbatim>\<open>readCrdtFromStorage\<close>.

  JavaScript runs each event handler to completion, so every handler is a function from
  the room's state to the room's state. An exception is a value: a handler that can throw
  returns the exception (if any) together with the state it left behind, since the writes
  made before a \<^verbatim>\<open>throw\<close> stay.
\<close>

subsection \<open>Data\<close>

type_synonym bytes = "8 word list"

text \<open>\<^verbatim>\<open>msg.data\<close> of an inbound frame: an \<^verbatim>\<open>ArrayBuffer\<close> or a string.\<close>

datatype frame = ArrayBuffer bytes | TextFrame string

datatype js_error = Error string

text \<open>The argument of \<^verbatim>\<open>webSocket.send\<close>: a byte array, or the string
  \<^verbatim>\<open>JSON.stringify({error: err.stack})\<close>.\<close>

datatype wire = Binary bytes | ErrorJson js_error

datatype arg = ArgBytes bytes | ArgString string

text \<open>The \<^verbatim>\<open>MessageEvent\<close> objects the coordinator builds or receives from its clients:
  the event type with its \<^verbatim>\<open>data\<close> fields. \<^verbatim>\<open>Update\<close> stands for every update or
  rollback object of the data client that the coordinator does not look into.\<close>

datatype message_event =
    ImportMessage "(string \<times> string list) list"
  | InitialUpdateMessage "arg option list"
  | Networkinit "string list"
  | Join string
  | Deadhand "string list" "string option"
  | Livehand "string list" "string option"
  | RemoveUpdate string string
  | LockRequest "string option" "arg option"
  | LockResponse "string option" "arg option"
  | LockRelease "string option" "arg option"
  | Update nat "arg list"

text \<open>Modelled from the spec: the data client (\<^verbatim>\<open>public/data-client.mjs\<close> is not among the
  sources). Its replica is a set of named arrays, each a mapping from \<^verbatim>\<open>arrayIndexId\<close> to
  a map; the coordinator only asks an array for its keys. \<^verbatim>\<open>emitted\<close> records the updates
  handed to \<^verbatim>\<open>emitUpdate\<close>.\<close>

record dataclient =
  arrays :: "(string \<times> string list) list"
  emitted :: "message_event list"

datatype lock_call = Handle "message_event option" | ServerUnlockSession nat

datatype listener = PauseOnmessage | SessionOnmessage

text \<open>One connection: the session object \<^verbatim>\<open>{webSocket, playerId}\<close> with its \<^verbatim>\<open>quit\<close>
  flag, the server end of the WebSocket pair it refers to, and the variables that
  \<^verbatim>\<open>handleSession\<close> closes over for it (\<^verbatim>\<open>deadHands\<close>, the queue of
  \<^verbatim>\<open>_pauseWebSocket\<close>). A JavaScript \<^verbatim>\<open>Map\<close> iterates in insertion order, so
  \<^verbatim>\<open>deadHands\<close> is an association list. \<^verbatim>\<open>sendThrows\<close> is the environment: whether
  \<^verbatim>\<open>send\<close> on this socket throws.\<close>

record session =
  playerId :: "string option"
  quit :: bool
  deadHands :: "(string \<times> string \<times> string option) list"
  accepted :: bool
  sendThrows :: bool
  sent :: "wire list"
  messageListeners :: "listener list"
  queue :: "frame list"
  closeListener :: bool
  closeCalls :: "(nat \<times> string) list"

text \<open>The room: \<^verbatim>\<open>this.sessions\<close> holds references, so it is a list of addresses into
  \<^verbatim>\<open>heap\<close>; \<^verbatim>\<open>s !== session\<close> compares addresses. \<^verbatim>\<open>dataListeners\<close> are the
  connections whose \<^verbatim>\<open>deadhand\<close> and \<^verbatim>\<open>livehand\<close> listeners are registered on the data
  client, in registration order.\<close>

record room =
  sessions :: "nat list"
  heap :: "nat \<Rightarrow> session"
  dataClient :: dataclient
  dataListeners :: "nat list"
  crdtClient :: "arg option list"
  lockClient :: "lock_call list"

text \<open>The modules under \<^verbatim>\<open>public/\<close> that the coordinator imports are not among the
  sources; what it uses of them is a parameter.\<close>

record env =
  parseUpdateObject :: "bytes \<Rightarrow> js_error + (nat \<times> arg list)"
  serializeMessage :: "message_event \<Rightarrow> bytes"
  dataHandlesMethod :: "nat \<Rightarrow> bool"
  crdtHandlesMethod :: "nat \<Rightarrow> bool"
  lockHandlesMethod :: "nat \<Rightarrow> bool"
  ircHandlesMethod :: "nat \<Rightarrow> bool"
  audioHandlesMethod :: "nat \<Rightarrow> bool"
  videoHandlesMethod :: "nat \<Rightarrow> bool"
  applyUint8Array :: "bytes \<Rightarrow> dataclient \<Rightarrow> (message_event option \<times> message_event option) \<times> dataclient"
  LOCK_REQUEST :: nat
  LOCK_RESPONSE :: nat
  LOCK_RELEASE :: nat

subsection \<open>Sequencing with exceptions\<close>

type_synonym 's exec = "'s \<Rightarrow> js_error option \<times> 's"

definition ok :: "'s exec" where
  "ok s = (None, s)"

definition and_then :: "'s exec \<Rightarrow> 's exec \<Rightarrow> 's exec" where
  "and_then f g s = (case f s of (None, s') \<Rightarrow> g s' | (Some e, s') \<Rightarrow> (Some e, s'))"

subsection \<open>The three send primitives\<close>

definition update_session :: "nat \<Rightarrow> (session \<Rightarrow> session) \<Rightarrow> room \<Rightarrow> room" where
  "update_session a f r = r\<lparr>heap := (heap r)(a := f (heap r a))\<rparr>"

text \<open>\<^verbatim>\<open>s.webSocket.send(m)\<close>.\<close>

definition ws_send :: "nat \<Rightarrow> wire \<Rightarrow> room exec" where
  "ws_send a m r =
     (if sendThrows (heap r a) then (Some (Error ''send failed''), r)
      else (None, update_session a (\<lambda>s. s\<lparr>sent := sent s @ [m]\<rparr>) r))"

definition respondToSelf :: "nat \<Rightarrow> wire \<Rightarrow> room exec" where
  "respondToSelf self m = ws_send self m"

text \<open>\<^verbatim>\<open>for (const s of this.sessions) { if (s !== session) { s.webSocket.send(m); } }\<close>\<close>

fun proxy_loop :: "nat \<Rightarrow> nat list \<Rightarrow> wire \<Rightarrow> room exec" where
  "proxy_loop self [] m r = (None, r)"
| "proxy_loop self (s # ss) m r =
     (if s \<noteq> self
      then (case ws_send s m r of
              (None, r') \<Rightarrow> proxy_loop self ss m r'
            | (Some e, r') \<Rightarrow> (Some e, r'))
      else proxy_loop self ss m r)"

definition proxyMessageToPeers :: "nat \<Rightarrow> wire \<Rightarrow> room exec" where
  "proxyMessageToPeers self m r = proxy_loop self (sessions r) m r"

text \<open>\<^verbatim>\<open>for (const s of this.sessions) { s.webSocket.send(m); }\<close>\<close>

fun reflect_loop :: "nat list \<Rightarrow> wire \<Rightarrow> room exec" where
  "reflect_loop [] m r = (None, r)"
| "reflect_loop (s # ss) m r =
     (case ws_send s m r of
        (None, r') \<Rightarrow> reflect_loop ss m r'
      | (Some e, r') \<Rightarrow> (Some e, r'))"

definition reflectMessageToPeers :: "wire \<Rightarrow> room exec" where
  "reflectMessageToPeers m r = reflect_loop (sessions r) m r"

subsection \<open>Dead-hand bookkeeping\<close>

text \<open>\<^verbatim>\<open>Map.prototype.set\<close> and \<^verbatim>\<open>delete\<close>: a key that is present keeps its place.\<close>

fun js_map_set :: "'k \<Rightarrow> 'v \<Rightarrow> ('k \<times> 'v) list \<Rightarrow> ('k \<times> 'v) list" where
  "js_map_set k v [] = [(k, v)]"
| "js_map_set k v ((k', v') # kvs) =
     (if k' = k then (k, v) # kvs else (k', v') # js_map_set k v kvs)"

definition js_map_delete :: "'k \<Rightarrow> ('k \<times> 'v) list \<Rightarrow> ('k \<times> 'v) list" where
  "js_map_delete k kvs = filter (\<lambda>kv. fst kv \<noteq> k) kvs"

text \<open>The two regular expressions of the \<^verbatim>\<open>deadhand\<close> listener,
  \<^verbatim>\<open>/^([^\.]+?)\.([^\.]+)$/\<close> and then \<^verbatim>\<open>/^([^\.]+)$/\<close>: the result is
  \<^verbatim>\<open>(arrayId, arrayIndexId)\<close>, with \<^verbatim>\<open>arrayIndexId\<close> \<^verbatim>\<open>null\<close> for the second;
  \<open>None\<close> when neither matches.\<close>

definition match_deadhand_key :: "string \<Rightarrow> (string \<times> string option) option" where
  "match_deadhand_key key =
     (let arrayId = takeWhile (\<lambda>c. c \<noteq> CHR ''.'') key;
          rest = dropWhile (\<lambda>c. c \<noteq> CHR ''.'') key
      in if arrayId \<noteq> [] \<and> rest \<noteq> [] \<and> tl rest \<noteq> [] \<and> CHR ''.'' \<notin> set (tl rest)
         then Some (arrayId, Some (tl rest))
         else if key \<noteq> [] \<and> CHR ''.'' \<notin> set key
         then Some (key, None)
         else None)"

text \<open>\<^verbatim>\<open>for (const key of keys)\<close> of the \<^verbatim>\<open>deadhand\<close> listener: the entries set before
  an invalid key stay.\<close>

fun set_deadHands :: "string list \<Rightarrow> (string \<times> string \<times> string option) list exec" where
  "set_deadHands [] d = (None, d)"
| "set_deadHands (key # keys) d =
     (case match_deadhand_key key of
        Some m \<Rightarrow> set_deadHands keys (js_map_set key m d)
      | None \<Rightarrow> (Some (Error (''invalid deadhand key: '' @ key)), d))"

fun delete_deadHands :: "string list \<Rightarrow> (string \<times> string \<times> string option) list \<Rightarrow> (string \<times> string \<times> string option) list" where
  "delete_deadHands [] d = d"
| "delete_deadHands (key # keys) d = delete_deadHands keys (js_map_delete key d)"

text \<open>The \<^verbatim>\<open>deadhand\<close> and the \<^verbatim>\<open>livehand\<close> listener that \<^verbatim>\<open>handleSession\<close> registers
  on the data client for the connection at address \<open>self\<close>.\<close>

definition data_listener :: "nat \<Rightarrow> message_event \<Rightarrow> room exec" where
  "data_listener self e r =
     (case e of
        Deadhand keys deadHand \<Rightarrow>
          if deadHand = playerId (heap r self)
          then (case set_deadHands keys (deadHands (heap r self)) of
                  (err, d) \<Rightarrow> (err, update_session self (\<lambda>s. s\<lparr>deadHands := d\<rparr>) r))
          else (None, r)
      | Livehand keys liveHand \<Rightarrow>
          if liveHand = playerId (heap r self)
          then (None, update_session self (\<lambda>s. s\<lparr>deadHands := delete_deadHands keys (deadHands s)\<rparr>) r)
          else (None, r)
      | _ \<Rightarrow> (None, r))"

fun dispatch_data_event :: "nat list \<Rightarrow> message_event \<Rightarrow> room exec" where
  "dispatch_data_event [] e r = (None, r)"
| "dispatch_data_event (l # ls) e r =
     (case data_listener l e r of
        (None, r') \<Rightarrow> dispatch_data_event ls e r'
      | (Some err, r') \<Rightarrow> (Some err, r'))"

text \<open>Modelled from the spec: \<^verbatim>\<open>DataClient.emitUpdate\<close> (\<^verbatim>\<open>public/data-client.mjs\<close> is not
  among the sources). The update is emitted into the data client, which drives the
  \<^verbatim>\<open>deadhand\<close> and \<^verbatim>\<open>livehand\<close> listeners in registration order; a listener that throws
  (a malformed dead-hand key) ends the dispatch, and the exception reaches the caller, as
  the spec's error taxonomy has it reported on the originating transport.\<close>

definition emitUpdate :: "message_event \<Rightarrow> room exec" where
  "emitUpdate u r =
     dispatch_data_event (dataListeners r) u
       (r\<lparr>dataClient := (dataClient r)\<lparr>emitted := emitted (dataClient r) @ [u]\<rparr>\<rparr>)"

text \<open>Modelled from the spec: \<^verbatim>\<open>dataClient.getArray(arrayId, {listen: false})\<close> with
  \<^verbatim>\<open>array.getKeys()\<close> and \<^verbatim>\<open>array.hasKey(arrayIndexId)\<close>; they read the replica and
  change nothing.\<close>

definition getKeys :: "dataclient \<Rightarrow> string \<Rightarrow> string list" where
  "getKeys dc arrayId = (case map_of (arrays dc) arrayId of None \<Rightarrow> [] | Some ks \<Rightarrow> ks)"

definition hasKey :: "dataclient \<Rightarrow> string \<Rightarrow> string \<Rightarrow> bool" where
  "hasKey dc arrayId arrayIndexId = (arrayIndexId \<in> set (getKeys dc arrayId))"

subsection \<open>Steady-state dispatch\<close>

text \<open>The \<^verbatim>\<open>switch\<close> of the lock branch; \<open>None\<close> is the \<^verbatim>\<open>undefined\<close> of its default
  case.\<close>

definition lock_message :: "env \<Rightarrow> nat \<Rightarrow> string option \<Rightarrow> arg list \<Rightarrow> message_event option" where
  "lock_message env method pid args =
     (let lockName = (case args of [] \<Rightarrow> None | x # _ \<Rightarrow> Some x)
      in if method = LOCK_REQUEST env then Some (LockRequest pid lockName)
         else if method = LOCK_RESPONSE env then Some (LockResponse pid lockName)
         else if method = LOCK_RELEASE env then Some (LockRelease pid lockName)
         else None)"

definition data_branch :: "env \<Rightarrow> nat \<Rightarrow> bytes \<Rightarrow> nat \<Rightarrow> room exec" where
  "data_branch env self uint8Array method r =
     (if dataHandlesMethod env method
      then (case applyUint8Array env uint8Array (dataClient r) of
              ((rollback, update), dc) \<Rightarrow>
                and_then
                  (case rollback of
                     Some rb \<Rightarrow> respondToSelf self (Binary (serializeMessage env rb))
                   | None \<Rightarrow> ok)
                  (case update of
                     Some u \<Rightarrow> and_then (emitUpdate u) (proxyMessageToPeers self (Binary uint8Array))
                   | None \<Rightarrow> ok)
                  (r\<lparr>dataClient := dc\<rparr>))
      else (None, r))"

definition crdt_branch :: "env \<Rightarrow> nat \<Rightarrow> bytes \<Rightarrow> nat \<Rightarrow> arg list \<Rightarrow> room exec" where
  "crdt_branch env self uint8Array method args r =
     (if crdtHandlesMethod env method
      then proxyMessageToPeers self (Binary uint8Array)
             (r\<lparr>crdtClient := crdtClient r @ [case args of [] \<Rightarrow> None | x # _ \<Rightarrow> Some x]\<rparr>)
      else (None, r))"

definition lock_branch :: "env \<Rightarrow> nat \<Rightarrow> nat \<Rightarrow> arg list \<Rightarrow> room exec" where
  "lock_branch env self method args r =
     (if lockHandlesMethod env method
      then (None, r\<lparr>lockClient := lockClient r @ [Handle (lock_message env method (playerId (heap r self)) args)]\<rparr>)
      else (None, r))"

definition irc_branch :: "env \<Rightarrow> bytes \<Rightarrow> nat \<Rightarrow> room exec" where
  "irc_branch env uint8Array method r =
     (if ircHandlesMethod env method then reflectMessageToPeers (Binary uint8Array) r else (None, r))"

definition av_branch :: "env \<Rightarrow> nat \<Rightarrow> bytes \<Rightarrow> nat \<Rightarrow> room exec" where
  "av_branch env self uint8Array method r =
     (if audioHandlesMethod env method \<or> videoHandlesMethod env method
      then proxyMessageToPeers self (Binary uint8Array) r
      else (None, r))"

definition handleBinaryMessage :: "env \<Rightarrow> nat \<Rightarrow> bytes \<Rightarrow> room exec" where
  "handleBinaryMessage env self uint8Array r =
     (case parseUpdateObject env uint8Array of
        Inl e \<Rightarrow> (Some e, r)
      | Inr (method, args) \<Rightarrow>
          and_then (data_branch env self uint8Array method)
         (and_then (crdt_branch env self uint8Array method args)
         (and_then (lock_branch env self method args)
         (and_then (irc_branch env uint8Array method)
                   (av_branch env self uint8Array method)))) r)"

text \<open>The \<^verbatim>\<open>message\<close> listener of the connection (an \<^verbatim>\<open>async\<close> function with no
  \<^verbatim>\<open>await\<close>: it runs to its end when called, and what its \<^verbatim>\<open>catch\<close> block throws is
  a rejected promise nobody looks at).\<close>

definition session_onmessage :: "env \<Rightarrow> nat \<Rightarrow> frame \<Rightarrow> room \<Rightarrow> room" where
  "session_onmessage env self d r =
     (if quit (heap r self)
      then update_session self (\<lambda>s. s\<lparr>closeCalls := closeCalls s @ [(1011, ''WebSocket broken.'')]\<rparr>) r
      else (case (case d of
                    ArrayBuffer arrayBuffer \<Rightarrow> handleBinaryMessage env self arrayBuffer r
                  | TextFrame _ \<Rightarrow> (Some (Error ''got non-binary message''), r)) of
              (None, r') \<Rightarrow> r'
            | (Some err, r') \<Rightarrow> snd (ws_send self (ErrorJson err) r')))"

subsection \<open>Pausing and resuming a WebSocket\<close>

text \<open>\<^verbatim>\<open>ws.dispatchEvent(new MessageEvent('message', {data}))\<close>, and likewise the runtime
  delivering an inbound frame: every registered \<^verbatim>\<open>message\<close> listener runs, in
  registration order.\<close>

fun run_listeners :: "env \<Rightarrow> nat \<Rightarrow> frame \<Rightarrow> listener list \<Rightarrow> room \<Rightarrow> room" where
  "run_listeners env self d [] r = r"
| "run_listeners env self d (PauseOnmessage # ls) r =
     run_listeners env self d ls (update_session self (\<lambda>s. s\<lparr>queue := queue s @ [d]\<rparr>) r)"
| "run_listeners env self d (SessionOnmessage # ls) r =
     run_listeners env self d ls (session_onmessage env self d r)"

definition dispatchEvent :: "env \<Rightarrow> nat \<Rightarrow> frame \<Rightarrow> room \<Rightarrow> room" where
  "dispatchEvent env self d r = run_listeners env self d (messageListeners (heap r self)) r"

text \<open>\<^verbatim>\<open>_pauseWebSocket(ws)\<close>: a fresh queue and the listener that fills it.\<close>

definition pauseWebSocket :: "nat \<Rightarrow> room \<Rightarrow> room" where
  "pauseWebSocket self r =
     update_session self (\<lambda>s. s\<lparr>queue := [], messageListeners := messageListeners s @ [PauseOnmessage]\<rparr>) r"

text \<open>The loop \<^verbatim>\<open>for (const data of queue) ws.dispatchEvent(...)\<close> of the function that
  \<^verbatim>\<open>_pauseWebSocket\<close> returns. The array iterator reads \<^verbatim>\<open>queue.length\<close> at every step,
  and the queueing listener is still registered while the loop runs. The loop gets fuel,
  one unit per iteration; the result says whether it came to its end.\<close>

fun replay :: "env \<Rightarrow> nat \<Rightarrow> nat \<Rightarrow> nat \<Rightarrow> room \<Rightarrow> bool \<times> room" where
  "replay env 0 self i r = (\<not> i < length (queue (heap r self)), r)"
| "replay env (Suc n) self i r =
     (if i < length (queue (heap r self))
      then replay env n self (Suc i) (dispatchEvent env self (queue (heap r self) ! i) r)
      else (True, r))"

definition remove_pause :: "nat \<Rightarrow> room \<Rightarrow> room" where
  "remove_pause self r =
     update_session self
       (\<lambda>s. s\<lparr>queue := [], messageListeners := remove1 PauseOnmessage (messageListeners s)\<rparr>) r"

definition resumeWebsocket :: "env \<Rightarrow> nat \<Rightarrow> nat \<Rightarrow> room \<Rightarrow> bool \<times> room" where
  "resumeWebsocket env fuel self r =
     (case replay env fuel self 0 r of
        (True, r') \<Rightarrow> (True, remove_pause self r')
      | (False, r') \<Rightarrow> (False, r'))"

subsection \<open>Dead-hand cleanup and the close handler\<close>

text \<open>The inner loop of the array mode: \<^verbatim>\<open>for (const arrayIndexId of array.getKeys())\<close>.\<close>

fun remove_maps :: "env \<Rightarrow> nat \<Rightarrow> string \<Rightarrow> string list \<Rightarrow> room exec" where
  "remove_maps env self arrayId [] r = (None, r)"
| "remove_maps env self arrayId (arrayIndexId # ks) r =
     (case proxyMessageToPeers self (Binary (serializeMessage env (RemoveUpdate arrayId arrayIndexId))) r of
        (None, r') \<Rightarrow> remove_maps env self arrayId ks r'
      | (Some e, r') \<Rightarrow> (Some e, r'))"

text \<open>\<^verbatim>\<open>for (const [key, {arrayId, arrayIndexId}] of deadHands.entries())\<close>.\<close>

fun deadHands_loop :: "env \<Rightarrow> nat \<Rightarrow> (string \<times> string \<times> string option) list \<Rightarrow> room exec" where
  "deadHands_loop env self [] r = (None, r)"
| "deadHands_loop env self ((key, arrayId, arrayIndexId) # rest) r =
     (case (case arrayIndexId of
              Some i \<Rightarrow>
                if hasKey (dataClient r) arrayId i
                then proxyMessageToPeers self (Binary (serializeMessage env (RemoveUpdate arrayId i))) r
                else (None, r)
            | None \<Rightarrow> remove_maps env self arrayId (getKeys (dataClient r) arrayId) r) of
        (None, r') \<Rightarrow> deadHands_loop env self rest r'
      | (Some e, r') \<Rightarrow> (Some e, r'))"

definition triggerDeadHands :: "env \<Rightarrow> nat \<Rightarrow> room exec" where
  "triggerDeadHands env self r = deadHands_loop env self (deadHands (heap r self)) r"

definition triggerUnlocks :: "nat \<Rightarrow> room exec" where
  "triggerUnlocks self r = (None, r\<lparr>lockClient := lockClient r @ [ServerUnlockSession self]\<rparr>)"

text \<open>\<^verbatim>\<open>closeOrErrorHandler\<close>: the \<^verbatim>\<open>catch\<close> block throws the exception on, the
  \<^verbatim>\<open>finally\<close> block (\<^verbatim>\<open>cleanup\<close>) removes the handler from both events.\<close>

definition closeOrErrorHandler :: "env \<Rightarrow> nat \<Rightarrow> room exec" where
  "closeOrErrorHandler env self r =
     (case and_then (triggerDeadHands env self) (triggerUnlocks self)
             ((update_session self (\<lambda>s. s\<lparr>quit := True\<rparr>) r)
                \<lparr>sessions := filter (\<lambda>member. member \<noteq> self) (sessions r)\<rparr>) of
        (err, r') \<Rightarrow> (err, update_session self (\<lambda>s. s\<lparr>closeListener := False\<rparr>) r'))"

text \<open>A \<^verbatim>\<open>close\<close> or \<^verbatim>\<open>error\<close> event on the socket: the handler runs if it is registered.\<close>

definition close_event :: "env \<Rightarrow> nat \<Rightarrow> room \<Rightarrow> room" where
  "close_event env self r =
     (if closeListener (heap r self) then snd (closeOrErrorHandler env self r) else r)"

subsection \<open>Attaching a session\<close>

text \<open>\<^verbatim>\<open>if (playerId)\<close>: \<^verbatim>\<open>null\<close> and the empty string are falsy.\<close>

definition sendJoinMessage :: "env \<Rightarrow> nat \<Rightarrow> string option \<Rightarrow> room exec" where
  "sendJoinMessage env self pid r =
     (case pid of
        None \<Rightarrow> (None, r)
      | Some p \<Rightarrow>
          if p \<noteq> []
          then and_then (emitUpdate (Join p))
                 (proxyMessageToPeers self (Binary (serializeMessage env (Join p)))) r
          else (None, r))"

text \<open>\<^verbatim>\<open>networkClient.getNetworkInitMessage()\<close>.\<close>

definition getNetworkInitMessage :: "room \<Rightarrow> message_event" where
  "getNetworkInitMessage r =
     Networkinit (map the (filter (\<lambda>p. p \<noteq> None) (map (\<lambda>s. playerId (heap r s)) (sessions r))))"

text \<open>Modelled from the spec: \<^verbatim>\<open>dataClient.getImportMessage()\<close> and
  \<^verbatim>\<open>crdtClient.getInitialUpdateMessage()\<close>, the snapshots of the two replicas.\<close>

definition getImportMessage :: "room \<Rightarrow> message_event" where
  "getImportMessage r = ImportMessage (arrays (dataClient r))"

definition getInitialUpdateMessage :: "room \<Rightarrow> message_event" where
  "getInitialUpdateMessage r = InitialUpdateMessage (crdtClient r)"

datatype completion = Returned | Thrown js_error | Running

text \<open>\<^verbatim>\<open>handleSession\<close> from the line after its three \<^verbatim>\<open>await\<close>s to its end; nothing
  in it waits, so it is one step of the room. \<open>self\<close> is the address of the session
  object (and of its socket); \<open>fuel\<close> bounds the iterations of the replay loop, and
  \<open>Running\<close> says that the loop used it up.\<close>

definition send_snapshots :: "env \<Rightarrow> nat \<Rightarrow> room exec" where
  "send_snapshots env self =
     and_then (\<lambda>r. ws_send self (Binary (serializeMessage env (getImportMessage r))) r)
    (and_then (\<lambda>r. ws_send self (Binary (serializeMessage env (getInitialUpdateMessage r))) r)
              (\<lambda>r. ws_send self (Binary (serializeMessage env (getNetworkInitMessage r))) r))"

definition register_data_listeners :: "nat \<Rightarrow> room \<Rightarrow> room" where
  "register_data_listeners self r =
     (update_session self (\<lambda>s. s\<lparr>deadHands := []\<rparr>) r)\<lparr>dataListeners := dataListeners r @ [self]\<rparr>"

definition register_socket_listeners :: "nat \<Rightarrow> room \<Rightarrow> room" where
  "register_socket_listeners self r =
     update_session self
       (\<lambda>s. s\<lparr>messageListeners := messageListeners s @ [SessionOnmessage], closeListener := True\<rparr>) r"

definition attach_setup :: "env \<Rightarrow> nat \<Rightarrow> room exec" where
  "attach_setup env self r =
     and_then (send_snapshots env self)
       (and_then (\<lambda>r. (None, register_data_listeners self r))
                 (\<lambda>r. sendJoinMessage env self (playerId (heap r self)) r))
       (r\<lparr>sessions := sessions r @ [self]\<rparr>)"

definition attach :: "env \<Rightarrow> nat \<Rightarrow> nat \<Rightarrow> room \<Rightarrow> completion \<times> room" where
  "attach env fuel self r =
     (case attach_setup env self r of
        (Some e, r') \<Rightarrow> (Thrown e, r')
      | (None, r') \<Rightarrow>
          (case resumeWebsocket env fuel self (register_socket_listeners self r') of
             (True, r'') \<Rightarrow> (Returned, r'')
           | (False, r'') \<Rightarrow> (Running, r'')))"

text \<open>The socket that \<^verbatim>\<open>new WebSocketPair()\<close> hands to \<^verbatim>\<open>handleSession\<close>.\<close>

definition new_socket :: "bool \<Rightarrow> session" where
  "new_socket throws =
     \<lparr>playerId = None, quit = False, deadHands = [], accepted = False, sendThrows = throws,
      sent = [], messageListeners = [], queue = [], closeListener = False, closeCalls = []\<rparr>"

text \<open>\<^verbatim>\<open>handleSession\<close> up to its first \<^verbatim>\<open>await\<close>, as far as the room sees it:
  \<^verbatim>\<open>webSocket.accept()\<close>, the \<^verbatim>\<open>playerId\<close> of the query string, \<^verbatim>\<open>_pauseWebSocket\<close>.\<close>

definition accept_and_pause :: "nat \<Rightarrow> string option \<Rightarrow> room \<Rightarrow> room" where
  "accept_and_pause self pid r =
     pauseWebSocket self (update_session self (\<lambda>s. s\<lparr>accepted := True, playerId := pid\<rparr>) r)"

subsection \<open>Single-flight initialisation of the room's clients\<close>

definition schemaArrayNames :: "string list" where
  "schemaArrayNames = [''worldApps'']"

text \<open>The durable storage of a room, as far as \<^verbatim>\<open>readCrdtFromStorage\<close> looks at it: for a
  key, \<open>None\<close> when \<^verbatim>\<open>get\<close> yields \<^verbatim>\<open>undefined\<close>, else the property names that
  \<^verbatim>\<open>for ... in\<close> enumerates on the stored value.\<close>

type_synonym storage = "string \<Rightarrow> string list option"

text \<open>\<^verbatim>\<open>readCrdtFromStorage\<close>: the keys it passes to \<^verbatim>\<open>storage.get\<close>, in order, and the
  arrays it found.\<close>

fun readCrdtFromStorage :: "storage \<Rightarrow> string list \<Rightarrow> string list \<times> (string \<times> string list) list" where
  "readCrdtFromStorage st [] = ([], [])"
| "readCrdtFromStorage st (arrayId # arrayNames) =
     (let array = (case st arrayId of None \<Rightarrow> [] | Some ks \<Rightarrow> ks);
          rest = readCrdtFromStorage st arrayNames
      in (arrayId # array @ fst rest, (arrayId, array) # snd rest))"

text \<open>The three module-level tables of promises, keyed by room name; a promise is named by
  the number of the client instance it resolves to. \<^verbatim>\<open>gets\<close> logs every
  \<^verbatim>\<open>storage.get(key)\<close> with the room whose storage it reads. Every room has its own
  storage: the reads of one room are logged in the order of the calls, and the log says
  nothing about the order between reads of different rooms.\<close>

record world =
  dataClientPromises :: "string \<rightharpoonup> nat"
  crdtClientPromises :: "string \<rightharpoonup> nat"
  lockClientPromises :: "string \<rightharpoonup> nat"
  gets :: "(string \<times> string) list"
  instances :: nat

text \<open>The get-or-create block of the data client. The \<^verbatim>\<open>async\<close> function it starts runs
  at once up to its first \<^verbatim>\<open>await\<close>, which is the first \<^verbatim>\<open>storage.get\<close> of
  \<^verbatim>\<open>readCrdtFromStorage\<close>: that read is made here. The other reads of
  \<^verbatim>\<open>readCrdtFromStorage\<close> are made after that \<^verbatim>\<open>await\<close>; they are returned with the
  promise.\<close>

definition dataClientPromise :: "(string \<Rightarrow> storage) \<Rightarrow> string \<Rightarrow> world \<Rightarrow> (nat \<times> string list) \<times> world" where
  "dataClientPromise st roomName w =
     (case dataClientPromises w roomName of
        Some p \<Rightarrow> ((p, []), w)
      | None \<Rightarrow>
          (let reads = fst (readCrdtFromStorage (st roomName) schemaArrayNames)
           in ((instances w, drop 1 reads),
               w\<lparr>dataClientPromises := (dataClientPromises w)(roomName \<mapsto> instances w),
                 gets := gets w @ map (Pair roomName) (take 1 reads),
                 instances := Suc (instances w)\<rparr>)))"

text \<open>The get-or-create block of the document-CRDT client: its \<^verbatim>\<open>async\<close> function calls
  \<^verbatim>\<open>storage.get('crdt')\<close> at once.\<close>

definition crdtClientPromise :: "string \<Rightarrow> world \<Rightarrow> nat \<times> world" where
  "crdtClientPromise roomName w =
     (case crdtClientPromises w roomName of
        Some p \<Rightarrow> (p, w)
      | None \<Rightarrow>
          (instances w,
           w\<lparr>crdtClientPromises := (crdtClientPromises w)(roomName \<mapsto> instances w),
             gets := gets w @ [(roomName, ''crdt'')],
             instances := Suc (instances w)\<rparr>))"

definition lockClientPromise :: "string \<Rightarrow> world \<Rightarrow> nat \<times> world" where
  "lockClientPromise roomName w =
     (case lockClientPromises w roomName of
        Some p \<Rightarrow> (p, w)
      | None \<Rightarrow>
          (instances w,
           w\<lparr>lockClientPromises := (lockClientPromises w)(roomName \<mapsto> instances w),
             instances := Suc (instances w)\<rparr>))"

text \<open>The three get-or-create blocks of \<^verbatim>\<open>handleSession\<close>, which run before its first
  \<^verbatim>\<open>await\<close>, and then the reads that the initialisation of the data client, if this attach
  operation started it, makes while \<^verbatim>\<open>handleSession\<close> awaits its promise: the storage
  sees the first read of \<^verbatim>\<open>readCrdtFromStorage\<close>, then the read of \<^verbatim>\<open>crdt\<close>, then the
  other reads of \<^verbatim>\<open>readCrdtFromStorage\<close>. The result is the promises this attach
  operation awaits, and the tables after it.\<close>

definition room_clients :: "(string \<Rightarrow> storage) \<Rightarrow> string \<Rightarrow> world \<Rightarrow> (nat \<times> nat \<times> nat) \<times> world" where
  "room_clients st roomName w =
     (case dataClientPromise st roomName w of ((d, later), w1) \<Rightarrow>
      case crdtClientPromise roomName w1 of (c, w2) \<Rightarrow>
      case lockClientPromise roomName w2 of (l, w3) \<Rightarrow>
        ((d, c, l), w3\<lparr>gets := gets w3 @ map (Pair roomName) later\<rparr>))"

definition no_promises :: world where
  "no_promises = \<lparr>dataClientPromises = Map.empty, crdtClientPromises = Map.empty,
                  lockClientPromises = Map.empty, gets = [], instances = 0\<rparr>"


subsection \<open>The room object's fetch\<close>

record request =
  pathname :: string
  upgrade :: "string option"
  playerIdParam :: "string option"

datatype response =
    Response nat string
  | WebSocketResponse nat
  | ErrorSocketResponse js_error
  | Pending

text \<open>\<^verbatim>\<open>url.pathname.match(/^\/([^\/]+?)\/([^\/]+?)$/)\<close>.\<close>

definition match_pathname :: "string \<Rightarrow> (string \<times> string) option" where
  "match_pathname p =
     (case p of
        [] \<Rightarrow> None
      | c # cs \<Rightarrow>
          (let roomName = takeWhile (\<lambda>c. c \<noteq> CHR ''/'') cs;
               rest = dropWhile (\<lambda>c. c \<noteq> CHR ''/'') cs
           in if c = CHR ''/'' \<and> roomName \<noteq> [] \<and> rest \<noteq> [] \<and> tl rest \<noteq> [] \<and> CHR ''/'' \<notin> set (tl rest)
              then Some (roomName, tl rest)
              else None))"

text \<open>\<^verbatim>\<open>handleSession\<close> as a whole. \<open>self\<close> is the address of \<^verbatim>\<open>pair[1]\<close>, \<open>throws\<close>
  whether its \<^verbatim>\<open>send\<close> throws, and \<open>arrivals\<close> are the frames that reach the socket while
  \<^verbatim>\<open>handleSession\<close> waits for the three promises.\<close>

definition handleSession ::
  "env \<Rightarrow> (string \<Rightarrow> storage) \<Rightarrow> nat \<Rightarrow> frame list \<Rightarrow> nat \<Rightarrow> bool \<Rightarrow> string \<Rightarrow> string option \<Rightarrow>
     world \<times> room \<Rightarrow> completion \<times> world \<times> room" where
  "handleSession env st fuel arrivals self throws roomName pid wr =
     (case wr of (w, r) \<Rightarrow>
      case room_clients st roomName w of (ps, w') \<Rightarrow>
      case attach env fuel self
             (fold (dispatchEvent env self) arrivals
                (accept_and_pause self pid (r\<lparr>heap := (heap r)(self := new_socket throws)\<rparr>))) of
        (c, r') \<Rightarrow> (c, w', r'))"

text \<open>\<^verbatim>\<open>ChatRoom.fetch\<close> inside \<^verbatim>\<open>handleErrors\<close>.\<close>

definition fetch ::
  "env \<Rightarrow> (string \<Rightarrow> storage) \<Rightarrow> nat \<Rightarrow> frame list \<Rightarrow> nat \<Rightarrow> bool \<Rightarrow> request \<Rightarrow>
     world \<times> room \<Rightarrow> response \<times> world \<times> room" where
  "fetch env st fuel arrivals self throws req wr =
     (let m = match_pathname (pathname req);
          roomName = (case m of Some (a, b) \<Rightarrow> a | None \<Rightarrow> []);
          methodName = (case m of Some (a, b) \<Rightarrow> b | None \<Rightarrow> [])
      in if methodName = ''websocket''
         then if upgrade req \<noteq> Some ''websocket''
              then (Response 400 ''expected websocket'', wr)
              else (case handleSession env st fuel arrivals self throws roomName (playerIdParam req) wr of
                      (Returned, wr') \<Rightarrow> (WebSocketResponse self, wr')
                    | (Thrown e, wr') \<Rightarrow> (ErrorSocketResponse e, wr')
                    | (Running, wr') \<Rightarrow> (Pending, wr'))
         else (Response 404 ''Not found'', wr))"

subsection \<open>What a broadcast leaves behind\<close>

text \<open>\<open>deliver f\<close> appends \<open>f a\<close> to what the socket at every address \<open>a\<close> has been
  sent. \<open>reached r targets\<close> are the targets of a send loop up to the first one whose
  \<^verbatim>\<open>send\<close> throws, and \<open>send_result\<close> is the loop's outcome in closed form: the message
  goes to the targets reached, and the loop throws unless it reached them all.\<close>

definition deliver :: "(nat \<Rightarrow> wire list) \<Rightarrow> room \<Rightarrow> room" where
  "deliver f r = r\<lparr>heap := (\<lambda>a. (heap r a)\<lparr>sent := sent (heap r a) @ f a\<rparr>)\<rparr>"

definition reached :: "room \<Rightarrow> nat list \<Rightarrow> nat list" where
  "reached r targets = takeWhile (\<lambda>a. \<not> sendThrows (heap r a)) targets"

definition send_result :: "room \<Rightarrow> nat list \<Rightarrow> wire \<Rightarrow> js_error option \<times> room" where
  "send_result r targets m =
     (if reached r targets = targets then None else Some (Error ''send failed''),
      deliver (\<lambda>a. replicate (count_list (reached r targets) a) m) r)"

text \<open>What the handlers of a connection never change: the session list and, of every
  connection, the flags and the listeners.\<close>

definition shape :: "room \<Rightarrow> nat list \<times> (nat \<Rightarrow> bool \<times> string option \<times> bool \<times> listener list \<times> bool \<times> bool)" where
  "shape r = (sessions r,
      (\<lambda>a. (quit (heap r a), playerId (heap r a), sendThrows (heap r a),
            messageListeners (heap r a), closeListener (heap r a), accepted (heap r a))))"

text \<open>What the steady-state handlers may change of a connection: they append to what it has
  been sent, and leave its queue alone (\<open>quiet\<close>); delivering a frame may also fill the
  queue (\<open>sent_grows\<close>).\<close>

definition quiet :: "room \<Rightarrow> room \<Rightarrow> bool" where
  "quiet r r' = (\<forall>a. queue (heap r' a) = queue (heap r a) \<and> (\<exists>ms. sent (heap r' a) = sent (heap r a) @ ms))"

definition sent_grows :: "room \<Rightarrow> room \<Rightarrow> bool" where
  "sent_grows r r' = (\<forall>a. \<exists>ms. sent (heap r' a) = sent (heap r a) @ ms)"

text \<open>The three snapshot messages of a room, in the order in which \<^verbatim>\<open>handleSession\<close>
  sends them.\<close>

definition snapshots :: "env \<Rightarrow> room \<Rightarrow> wire list" where
  "snapshots env r =
     [Binary (serializeMessage env (getImportMessage r)),
      Binary (serializeMessage env (getInitialUpdateMessage r)),
      Binary (serializeMessage env (getNetworkInitMessage r))]"

subsection \<open>The rooms the coordinator can be in\<close>

text \<open>A room starts with no session. Its steps: a connection is accepted and paused
  (\<^verbatim>\<open>handleSession\<close> up to its first \<^verbatim>\<open>await\<close>); a frame reaches an accepted socket;
  a paused connection is attached (\<^verbatim>\<open>handleSession\<close> after its last \<^verbatim>\<open>await\<close>); a
  socket closes or fails.\<close>

inductive reachable :: "env \<Rightarrow> room \<Rightarrow> bool" for env :: env where
  start: "sessions r = [] \<Longrightarrow> heap r = (\<lambda>a. new_socket False) \<Longrightarrow> dataListeners r = [] \<Longrightarrow> reachable env r"
| connect: "reachable env r \<Longrightarrow> \<not> accepted (heap r self) \<Longrightarrow>
     reachable env (accept_and_pause self pid (r\<lparr>heap := (heap r)(self := new_socket throws)\<rparr>))"
| arrive: "reachable env r \<Longrightarrow> accepted (heap r self) \<Longrightarrow> reachable env (dispatchEvent env self d r)"
| attach: "reachable env r \<Longrightarrow> messageListeners (heap r self) = [PauseOnmessage] \<Longrightarrow>
     self \<notin> set (sessions r) \<Longrightarrow> reachable env (snd (attach env fuel self r))"
| close: "reachable env r \<Longrightarrow> reachable env (close_event env self r)"

definition quit_inv :: "room \<Rightarrow> bool" where
  "quit_inv r = (\<forall>a. (quit (heap r a) \<longrightarrow> a \<notin> set (sessions r) \<and> SessionOnmessage \<in> set (messageListeners (heap r a)))
                   \<and> (closeListener (heap r a) \<longrightarrow> SessionOnmessage \<in> set (messageListeners (heap r a))))"

subsection \<open>A concrete environment and concrete rooms\<close>

text \<open>A wire format for the examples: the first byte of a frame is its method, the second
  selects what the data client answers.\<close>

definition demo_serialize :: "message_event \<Rightarrow> bytes" where
  "demo_serialize e =
     (case e of
        ImportMessage a \<Rightarrow> [1]
      | InitialUpdateMessage u \<Rightarrow> [2]
      | Networkinit ps \<Rightarrow> 3 # concat (map (\<lambda>p. map (\<lambda>c. of_nat (of_char c)) p @ [0]) ps)
      | Join p \<Rightarrow> 4 # map (\<lambda>c. of_nat (of_char c)) p
      | RemoveUpdate a i \<Rightarrow> 5 # map (\<lambda>c. of_nat (of_char c)) (a @ ''.'' @ i)
      | Update n args \<Rightarrow> [6, of_nat n]
      | _ \<Rightarrow> [7])"

definition demo_env :: env where
  "demo_env = \<lparr>
     parseUpdateObject = (\<lambda>b. case b of [] \<Rightarrow> Inl (Error ''empty frame'') | m # rest \<Rightarrow> Inr (unat m, [ArgBytes rest])),
     serializeMessage = demo_serialize,
     dataHandlesMethod = (\<lambda>m. 20 \<le> m \<and> m < 30),
     crdtHandlesMethod = (\<lambda>m. 30 \<le> m \<and> m < 40),
     lockHandlesMethod = (\<lambda>m. 40 \<le> m \<and> m < 50),
     ircHandlesMethod = (\<lambda>m. m = 5 \<or> m = 6),
     audioHandlesMethod = (\<lambda>m. 7 \<le> m \<and> m \<le> 9),
     videoHandlesMethod = (\<lambda>m. 10 \<le> m \<and> m \<le> 12),
     applyUint8Array = (\<lambda>b dc. case b of
         [m, k] \<Rightarrow> (if k = 0 then ((Some (Update 0 []), None), dc)
                    else if k = 1 then ((None, Some (Update 1 [])), dc)
                    else if k = 2 then ((None, Some (Deadhand [''worldApps.x1'', ''bad..key''] (Some ''a''))), dc)
                    else if k = 3 then ((Some (Update 0 []), Some (Update 1 [])), dc)
                    else if k = 4 then ((None, Some (Deadhand [''worldApps''] (Some ''a''))), dc)
                    else ((None, None), dc))
       | _ \<Rightarrow> ((None, None), dc)),
     LOCK_REQUEST = 40, LOCK_RESPONSE = 41, LOCK_RELEASE = 42\<rparr>"

definition empty_room :: room where
  "empty_room = \<lparr>sessions = [], heap = (\<lambda>a. new_socket False),
     dataClient = \<lparr>arrays = [(''worldApps'', [''x1'', ''x2''])], emitted = []\<rparr>,
     dataListeners = [], crdtClient = [], lockClient = []\<rparr>"

text \<open>Player \<open>a\<close> attaches on socket 1; then player \<open>b\<close> on socket 2, whose \<^verbatim>\<open>send\<close>
  throws; then player \<open>c\<close> on socket 3.\<close>

definition room_a :: room where
  "room_a = snd (attach demo_env 0 1 (accept_and_pause 1 (Some ''a'')
                  (empty_room\<lparr>heap := (heap empty_room)(1 := new_socket False)\<rparr>)))"

definition room_ab :: room where
  "room_ab = snd (attach demo_env 0 2 (accept_and_pause 2 (Some ''b'')
                   (room_a\<lparr>heap := (heap room_a)(2 := new_socket True)\<rparr>)))"

definition room_abc :: room where
  "room_abc = snd (attach demo_env 0 3 (accept_and_pause 3 (Some ''c'')
                    (room_ab\<lparr>heap := (heap room_ab)(3 := new_socket False)\<rparr>)))"

text \<open>The exception of the \<^verbatim>\<open>deadhand\<close> listener for a list of keys: it names the first key
  that matches neither pattern. \<open>emit_error\<close> is the exception with which \<^verbatim>\<open>emitUpdate\<close>
  ends, if any: a \<^verbatim>\<open>deadhand\<close> event with such a key, addressed to a player id for which a
  listener is registered.\<close>

definition key_error :: "string list \<Rightarrow> js_error option" where
  "key_error keys = (case find (\<lambda>k. match_deadhand_key k = None) keys of
                       None \<Rightarrow> None
                     | Some k \<Rightarrow> Some (Error (''invalid deadhand key: '' @ k)))"

definition emit_error :: "room \<Rightarrow> message_event \<Rightarrow> js_error option" where
  "emit_error r u =
     (case u of
        Deadhand keys deadHand \<Rightarrow>
          if deadHand \<in> set (map (\<lambda>l. playerId (heap r l)) (dataListeners r)) then key_error keys else None
      | _ \<Rightarrow> None)"

text \<open>\<open>sends r r' f\<close>: from \<open>r\<close> to \<open>r'\<close> the socket at every address \<open>a\<close> has been
  sent exactly \<open>f a\<close>, and the session list, the flags and the listeners are as they were.
  \<open>runs f r g\<close>: the handler \<open>f\<close>, started in \<open>r\<close>, does not throw and sends \<open>g\<close>.\<close>

definition sends :: "room \<Rightarrow> room \<Rightarrow> (nat \<Rightarrow> wire list) \<Rightarrow> bool" where
  "sends r r' f = (shape r' = shape r \<and> dataListeners r' = dataListeners r
                   \<and> (\<forall>a. sent (heap r' a) = sent (heap r a) @ f a))"

text \<open>No \<^verbatim>\<open>send\<close> of the originator or of a session of the list throws.\<close>

definition all_send_ok :: "room \<Rightarrow> nat \<Rightarrow> bool" where
  "all_send_ok r self = list_all (\<lambda>a. \<not> sendThrows (heap r a)) (self # sessions r)"

text \<open>What a frame is routed to. \<open>data_result\<close> is the \<^verbatim>\<open>{rollback, update}\<close> that the data
  client yields for it (nothing for a method outside the data-client set);
  \<open>proxy_classes\<close> counts the classes that proxy the frame to the peers, \<open>reflect_classes\<close>
  those that reflect it to all; \<open>routed\<close> is what each address is sent.\<close>

definition data_result :: "env \<Rightarrow> bytes \<Rightarrow> nat \<Rightarrow> room \<Rightarrow> message_event option \<times> message_event option" where
  "data_result env b method r =
     (if dataHandlesMethod env method then fst (applyUint8Array env b (dataClient r)) else (None, None))"

definition rollback_frames :: "env \<Rightarrow> message_event option \<Rightarrow> wire list" where
  "rollback_frames env rollback = (case rollback of None \<Rightarrow> [] | Some rb \<Rightarrow> [Binary (serializeMessage env rb)])"

definition proxy_classes :: "env \<Rightarrow> nat \<Rightarrow> message_event option \<Rightarrow> nat" where
  "proxy_classes env method update =
     (if dataHandlesMethod env method \<and> update \<noteq> None then 1 else 0)
     + (if crdtHandlesMethod env method then 1 else 0)
     + (if audioHandlesMethod env method \<or> videoHandlesMethod env method then 1 else 0)"

definition reflect_classes :: "env \<Rightarrow> nat \<Rightarrow> nat" where
  "reflect_classes env method = (if ircHandlesMethod env method then 1 else 0)"

definition routed :: "env \<Rightarrow> nat \<Rightarrow> bytes \<Rightarrow> nat \<Rightarrow> message_event option \<times> message_event option \<Rightarrow> room \<Rightarrow> nat \<Rightarrow> wire list" where
  "routed env self b method res r a =
     (if a = self
      then rollback_frames env (fst res)
           @ replicate (count_list (sessions r) a * reflect_classes env method) (Binary b)
      else replicate (count_list (sessions r) a * (proxy_classes env method (snd res) + reflect_classes env method))
             (Binary b))"

definition runs :: "room exec \<Rightarrow> room \<Rightarrow> (nat \<Rightarrow> wire list) \<Rightarrow> bool" where
  "runs f r g = (fst (f r) = None \<and> sends r (snd (f r)) g)"

text \<open>What the socket at an address has been sent between two states of the room.\<close>

definition received :: "room \<Rightarrow> room \<Rightarrow> nat \<Rightarrow> wire list" where
  "received r r' a = drop (length (sent (heap r a))) (sent (heap r' a))"

text \<open>Player \<open>a\<close> on socket 1, then player \<open>d\<close> on socket 4.\<close>

definition room_ad :: room where
  "room_ad = snd (attach demo_env 0 4 (accept_and_pause 4 (Some ''d'')
                   (room_a\<lparr>heap := (heap room_a)(4 := new_socket False)\<rparr>)))"

text \<open>No \<^verbatim>\<open>send\<close> of a session of the list other than the originator throws.\<close>

definition peers_send_ok :: "room \<Rightarrow> nat \<Rightarrow> bool" where
  "peers_send_ok r self = list_all (\<lambda>a. \<not> sendThrows (heap r a)) (filter (\<lambda>s. s \<noteq> self) (sessions r))"

text \<open>The removes that the spec asks of the dead-hand cleanup, as pairs of \<^verbatim>\<open>arrayId\<close> and
  \<^verbatim>\<open>arrayIndexId\<close>: for an entry with an \<^verbatim>\<open>arrayIndexId\<close>, that map if the array still
  contains the key; for an entry without, every map currently in the array.\<close>

definition dead_hand_removes :: "dataclient \<Rightarrow> (string \<times> string \<times> string option) list \<Rightarrow> (string \<times> string) list" where
  "dead_hand_removes dc entries =
     concat (map (\<lambda>(key, arrayId, arrayIndexId).
                    case arrayIndexId of
                      Some i \<Rightarrow> if hasKey dc arrayId i then [(arrayId, i)] else []
                    | None \<Rightarrow> map (Pair arrayId) (getKeys dc arrayId)) entries)"

definition remove_frames :: "env \<Rightarrow> nat \<Rightarrow> (string \<times> string) list \<Rightarrow> wire list" where
  "remove_frames env n removes =
     concat (map (\<lambda>(arrayId, i). replicate n (Binary (serializeMessage env (RemoveUpdate arrayId i)))) removes)"

text \<open>Player \<open>d\<close> hands the whole array \<open>worldApps\<close> to player \<open>a\<close> as a dead hand.\<close>

definition room_ad_owned :: room where
  "room_ad_owned = session_onmessage demo_env 4 (ArrayBuffer [20, 4]) room_ad"





text \<open>Two storages for the examples: in every room the array \<open>worldApps\<close> holds the maps
  \<open>x1\<close> and \<open>x2\<close>; in every room the array \<open>worldApps\<close> holds one map, whose
  \<^verbatim>\<open>arrayIndexId\<close> is \<open>crdt\<close>.\<close>

definition demo_storage :: "string \<Rightarrow> storage" where
  "demo_storage roomName = (\<lambda>key. if key = ''worldApps'' then Some [''x1'', ''x2''] else None)"


text \<open>The frames that the replay loop dispatches in its first \<open>n\<close> iterations when it starts
  on a queue that holds \<open>arrivals\<close>: the frames of the queue in their order, and then, since
  every dispatch appends the frame to the queue again, the same frames once more, and so
  on.\<close>

definition replayed :: "frame list \<Rightarrow> nat \<Rightarrow> frame list" where
  "replayed arrivals n = map (\<lambda>k. arrivals ! (k mod length arrivals)) [0..<n]"

text \<open>Player \<open>c\<close> on socket 3, then player \<open>d\<close> on socket 4: no player \<open>a\<close> is
  attached.\<close>

definition room_c :: room where
  "room_c = snd (attach demo_env 0 3 (accept_and_pause 3 (Some ''c'')
                  (empty_room\<lparr>heap := (heap empty_room)(3 := new_socket False)\<rparr>)))"

definition room_cd :: room where
  "room_cd = snd (attach demo_env 0 4 (accept_and_pause 4 (Some ''d'')
                   (room_c\<lparr>heap := (heap room_c)(4 := new_socket False)\<rparr>)))"

text \<open>In the room of the players \<open>a\<close>, \<open>b\<close> and \<open>c\<close>, where \<^verbatim>\<open>send\<close> on the socket
  of \<open>b\<close> throws: player \<open>a\<close> takes the whole array \<open>worldApps\<close> as its dead
  hand.\<close>

definition room_abc_owned :: room where
  "room_abc_owned = dispatchEvent demo_env 1 (ArrayBuffer [20, 4]) room_abc"

section \<open>Properties\<close>

subsection \<open>Send loops in closed form\<close>

lemma deliver_simps:
  "sessions (deliver f r) = sessions r"
  "heap (deliver f r) a = (heap r a)\<lparr>sent := sent (heap r a) @ f a\<rparr>"
  "dataClient (deliver f r) = dataClient r"
  "dataListeners (deliver f r) = dataListeners r"
  "crdtClient (deliver f r) = crdtClient r"
  "lockClient (deliver f r) = lockClient r"
  by (simp_all add: deliver_def)

lemma deliver_deliver: "deliver f (deliver g r) = deliver (\<lambda>a. g a @ f a) r"
  by (simp add: deliver_def)

lemma deliver_nothing: "deliver (\<lambda>a. []) r = r"
  by (simp add: deliver_def)

lemma reached_deliver: "reached (deliver f r) ts = reached r ts"
  by (simp add: reached_def deliver_simps)

lemma ws_send_eq:
  "ws_send a m r =
     (if sendThrows (heap r a) then (Some (Error ''send failed''), r)
      else (None, deliver (\<lambda>x. if x = a then [m] else []) r))"
  by (auto simp: ws_send_def update_session_def deliver_def fun_eq_iff intro!: arg_cong[where f="\<lambda>h. r\<lparr>heap := h\<rparr>"])

lemma ws_send_result: "ws_send a m r = send_result r [a] m"
  by (auto simp: ws_send_eq send_result_def reached_def deliver_nothing fun_eq_iff
      intro!: arg_cong[where f="\<lambda>f. deliver f r"])

lemma proxy_loop_result:
  "proxy_loop self ss m r = send_result r (filter (\<lambda>s. s \<noteq> self) ss) m"
proof (induction ss arbitrary: r)
  case Nil
  show ?case by (simp add: send_result_def reached_def deliver_nothing)
next
  case (Cons s ss)
  show ?case
  proof (cases "s = self")
    case True
    then show ?thesis using Cons.IH by simp
  next
    case False
    show ?thesis
    proof (cases "sendThrows (heap r s)")
      case True
      then show ?thesis using False
        by (simp add: ws_send_eq send_result_def reached_def deliver_nothing)
    next
      case ok: False
      have "(\<lambda>a. (if a = s then [m] else []) @ replicate (count_list (reached r (filter (\<lambda>s. s \<noteq> self) ss)) a) m)
          = (\<lambda>a. replicate (count_list (reached r (s # filter (\<lambda>s. s \<noteq> self) ss)) a) m)"
        using ok by (auto simp: fun_eq_iff reached_def)
      then show ?thesis using False ok Cons.IH
        by (simp add: ws_send_eq send_result_def reached_deliver deliver_deliver)
          (simp add: reached_def)
    qed
  qed
qed

lemma reflect_loop_result: "reflect_loop ss m r = send_result r ss m"
proof (induction ss arbitrary: r)
  case Nil
  show ?case by (simp add: send_result_def reached_def deliver_nothing)
next
  case (Cons s ss)
  show ?case
  proof (cases "sendThrows (heap r s)")
    case True
    then show ?thesis
      by (simp add: ws_send_eq send_result_def reached_def deliver_nothing)
  next
    case ok: False
    have "(\<lambda>a. (if a = s then [m] else []) @ replicate (count_list (reached r ss) a) m)
        = (\<lambda>a. replicate (count_list (reached r (s # ss)) a) m)"
      using ok by (auto simp: fun_eq_iff reached_def)
    then show ?thesis using ok Cons.IH
      by (simp add: ws_send_eq send_result_def reached_deliver deliver_deliver)
        (simp add: reached_def)
  qed
qed

subsection \<open>What the handlers leave unchanged\<close>

lemma shape_eqD:
  assumes "shape r' = shape r"
  shows "sessions r' = sessions r"
    "quit (heap r' a) = quit (heap r a)" "playerId (heap r' a) = playerId (heap r a)"
    "sendThrows (heap r' a) = sendThrows (heap r a)"
    "messageListeners (heap r' a) = messageListeners (heap r a)"
    "closeListener (heap r' a) = closeListener (heap r a)"
    "accepted (heap r' a) = accepted (heap r a)"
  using assms by (auto simp: shape_def dest: fun_cong[where x=a])

lemma shape_deliver: "shape (deliver f r) = shape r"
  by (simp add: shape_def deliver_simps)

lemma shape_send_result: "shape (snd (send_result r ts m)) = shape r"
  by (simp add: send_result_def shape_deliver)

lemma shape_and_then:
  assumes "\<And>r. shape (snd (f r)) = shape r" "\<And>r. shape (snd (g r)) = shape r"
  shows "shape (snd (and_then f g r)) = shape r"
proof (cases "f r")
  case (Pair e r1)
  then have "shape r1 = shape r" using assms(1)[of r] by simp
  then show ?thesis using Pair assms(2)[of r1]
    by (cases e) (simp_all add: and_then_def)
qed

lemma shape_proxy: "shape (snd (proxyMessageToPeers self m r)) = shape r"
  by (simp add: proxyMessageToPeers_def proxy_loop_result shape_send_result)

lemma shape_reflect: "shape (snd (reflectMessageToPeers m r)) = shape r"
  by (simp add: reflectMessageToPeers_def reflect_loop_result shape_send_result)

lemma shape_respond: "shape (snd (respondToSelf self m r)) = shape r"
  by (simp add: respondToSelf_def ws_send_result shape_send_result)

lemma shape_ws_send: "shape (snd (ws_send self m r)) = shape r"
  by (simp add: ws_send_result shape_send_result)

lemma shape_update_session:
  assumes "\<And>s. quit (f s) = quit s \<and> playerId (f s) = playerId s \<and> sendThrows (f s) = sendThrows s
     \<and> messageListeners (f s) = messageListeners s \<and> closeListener (f s) = closeListener s
     \<and> accepted (f s) = accepted s"
  shows "shape (update_session a f r) = shape r"
  using assms by (auto simp: shape_def update_session_def fun_eq_iff)

lemma shape_data_listener: "shape (snd (data_listener l e r)) = shape r"
  by (cases e) (auto simp: data_listener_def shape_update_session split: prod.splits)

lemma shape_dispatch_data_event: "shape (snd (dispatch_data_event ls e r)) = shape r"
proof (induction ls arbitrary: r)
  case Nil
  show ?case by simp
next
  case (Cons l ls)
  obtain err r1 where d: "data_listener l e r = (err, r1)" by (cases "data_listener l e r")
  then have "shape r1 = shape r" using shape_data_listener[of l e r] by simp
  then show ?case using d Cons.IH[of r1] by (cases err) simp_all
qed

lemma shape_emitUpdate: "shape (snd (emitUpdate u r)) = shape r"
  by (simp add: emitUpdate_def shape_dispatch_data_event) (simp add: shape_def)

lemma shape_ok: "shape (snd (ok r)) = shape r"
  by (simp add: ok_def)

lemma shape_data_branch: "shape (snd (data_branch env self b m r)) = shape r"
proof (cases "dataHandlesMethod env m")
  case False
  then show ?thesis by (simp add: data_branch_def)
next
  case True
  obtain rollback update dc where a: "applyUint8Array env b (dataClient r) = ((rollback, update), dc)"
    by (cases "applyUint8Array env b (dataClient r)") auto
  have 1: "\<And>r. shape (snd ((case rollback of Some rb \<Rightarrow> respondToSelf self (Binary (serializeMessage env rb)) | None \<Rightarrow> ok) r)) = shape r"
    by (cases rollback) (simp_all add: shape_ok shape_respond)
  have 2: "\<And>r. shape (snd ((case update of Some u \<Rightarrow> and_then (emitUpdate u) (proxyMessageToPeers self (Binary b)) | None \<Rightarrow> ok) r)) = shape r"
    by (cases update) (simp_all add: shape_ok shape_and_then shape_emitUpdate shape_proxy)
  have "shape (r\<lparr>dataClient := dc\<rparr>) = shape r" by (simp add: shape_def)
  then show ?thesis using True a shape_and_then[OF 1 2, of "r\<lparr>dataClient := dc\<rparr>"]
    by (simp add: data_branch_def)
qed

lemma shape_crdt_branch: "shape (snd (crdt_branch env self b m args r)) = shape r"
  by (simp add: crdt_branch_def shape_proxy) (simp add: shape_def)

lemma shape_lock_branch: "shape (snd (lock_branch env self m args r)) = shape r"
  by (simp add: lock_branch_def shape_def)

lemma shape_irc_branch: "shape (snd (irc_branch env b m r)) = shape r"
  by (simp add: irc_branch_def shape_reflect)

lemma shape_av_branch: "shape (snd (av_branch env self b m r)) = shape r"
  by (simp add: av_branch_def shape_proxy)

lemma shape_handleBinaryMessage: "shape (snd (handleBinaryMessage env self b r)) = shape r"
proof (cases "parseUpdateObject env b")
  case (Inl e)
  then show ?thesis by (simp add: handleBinaryMessage_def)
next
  case (Inr ma)
  then show ?thesis
    by (cases ma)
      (simp add: handleBinaryMessage_def shape_and_then shape_data_branch shape_crdt_branch
        shape_lock_branch shape_irc_branch shape_av_branch)
qed

lemma shape_session_onmessage: "shape (session_onmessage env self d r) = shape r"
proof (cases "quit (heap r self)")
  case True
  then show ?thesis by (simp add: session_onmessage_def shape_update_session)
next
  case False
  obtain err r1 where h: "(case d of ArrayBuffer ab \<Rightarrow> handleBinaryMessage env self ab r
             | TextFrame t \<Rightarrow> (Some (Error ''got non-binary message''), r)) = (err, r1)"
    by (rule prod.exhaust)
  have "shape r1 = shape r"
  proof (cases d)
    case (ArrayBuffer ab)
    with h have "handleBinaryMessage env self ab r = (err, r1)" by simp
    then show ?thesis using shape_handleBinaryMessage[of env self ab r] by simp
  next
    case (TextFrame t)
    with h show ?thesis by simp
  qed
  then show ?thesis using False h shape_ws_send[of self _ r1]
    by (cases err) (simp_all add: session_onmessage_def)
qed

lemma shape_run_listeners: "shape (run_listeners env self d ls r) = shape r"
proof (induction ls arbitrary: r)
  case Nil
  show ?case by simp
next
  case (Cons l ls)
  show ?case
  proof (cases l)
    case PauseOnmessage
    then show ?thesis using Cons.IH by (simp add: shape_update_session)
  next
    case SessionOnmessage
    then show ?thesis using Cons.IH by (simp add: shape_session_onmessage)
  qed
qed

lemma shape_dispatchEvent: "shape (dispatchEvent env self d r) = shape r"
  by (simp add: dispatchEvent_def shape_run_listeners)

lemma shape_replay: "shape (snd (replay env n self i r)) = shape r"
  by (induction n arbitrary: i r) (simp_all add: shape_dispatchEvent)

subsection \<open>No session of the list has quit\<close>

lemma quit_inv_shape:
  assumes "shape r' = shape r" and "quit_inv r"
  shows "quit_inv r'"
  using assms(2) unfolding quit_inv_def
  by (simp only: shape_eqD[OF assms(1)])

lemma quit_inv_update_session:
  assumes "quit_inv r"
    and "quit (f (heap r self)) \<Longrightarrow> self \<notin> set (sessions r) \<and> SessionOnmessage \<in> set (messageListeners (f (heap r self)))"
    and "closeListener (f (heap r self)) \<Longrightarrow> SessionOnmessage \<in> set (messageListeners (f (heap r self)))"
  shows "quit_inv (update_session self f r)"
  unfolding quit_inv_def
proof (intro allI)
  fix a
  let ?r' = "update_session self f r"
  show "(quit (heap ?r' a) \<longrightarrow> a \<notin> set (sessions ?r') \<and> SessionOnmessage \<in> set (messageListeners (heap ?r' a)))
        \<and> (closeListener (heap ?r' a) \<longrightarrow> SessionOnmessage \<in> set (messageListeners (heap ?r' a)))"
  proof (cases "a = self")
    case True
    then show ?thesis using assms(2,3) by (simp add: update_session_def)
  next
    case False
    then show ?thesis using assms(1) by (simp add: update_session_def quit_inv_def)
  qed
qed

lemma quit_invD:
  assumes "quit_inv r"
  shows "quit (heap r a) \<Longrightarrow> a \<notin> set (sessions r)"
    and "quit (heap r a) \<Longrightarrow> SessionOnmessage \<in> set (messageListeners (heap r a))"
    and "closeListener (heap r a) \<Longrightarrow> SessionOnmessage \<in> set (messageListeners (heap r a))"
  using assms by (simp_all add: quit_inv_def)

lemma quit_inv_sessions:
  assumes "quit_inv r" and "set ss \<subseteq> set (sessions r) \<union> {a. \<not> quit (heap r a)}"
  shows "quit_inv (r\<lparr>sessions := ss\<rparr>)"
  unfolding quit_inv_def
proof (intro allI)
  fix a
  show "(quit (heap (r\<lparr>sessions := ss\<rparr>) a) \<longrightarrow> a \<notin> set (sessions (r\<lparr>sessions := ss\<rparr>)) \<and> SessionOnmessage \<in> set (messageListeners (heap (r\<lparr>sessions := ss\<rparr>) a)))
        \<and> (closeListener (heap (r\<lparr>sessions := ss\<rparr>) a) \<longrightarrow> SessionOnmessage \<in> set (messageListeners (heap (r\<lparr>sessions := ss\<rparr>) a)))"
    using quit_invD[OF assms(1), of a] assms(2) by auto
qed

lemma shape_send_snapshots: "shape (snd (send_snapshots env self r)) = shape r"
  unfolding send_snapshots_def
  by (intro shape_and_then shape_ws_send)

lemma shape_sendJoinMessage: "shape (snd (sendJoinMessage env self pid r)) = shape r"
  by (cases pid) (simp_all add: sendJoinMessage_def shape_and_then shape_emitUpdate shape_proxy)

lemma shape_attach_setup:
  "shape (snd (attach_setup env self r)) = shape (r\<lparr>sessions := sessions r @ [self]\<rparr>)"
  unfolding attach_setup_def
  apply (intro shape_and_then shape_send_snapshots shape_sendJoinMessage)
  apply (simp add: register_data_listeners_def shape_def update_session_def fun_eq_iff)
  done

lemma shape_register_socket_listeners:
  "shape (register_socket_listeners self r)
     = (fst (shape r), (snd (shape r))(self := (quit (heap r self), playerId (heap r self), sendThrows (heap r self),
            messageListeners (heap r self) @ [SessionOnmessage], True, accepted (heap r self))))"
  by (simp add: register_socket_listeners_def shape_def update_session_def fun_eq_iff)

lemma quit_inv_attach:
  assumes inv: "quit_inv r" and ml: "messageListeners (heap r self) = [PauseOnmessage]"
  shows "quit_inv (snd (attach env fuel self r))"
proof -
  have nq: "\<not> quit (heap r self)" "\<not> closeListener (heap r self)"
    using quit_invD(2,3)[OF inv, of self] ml by auto
  let ?r0 = "r\<lparr>sessions := sessions r @ [self]\<rparr>"
  have inv0: "quit_inv ?r0" using nq by (intro quit_inv_sessions[OF inv]) auto
  obtain e r1 where su: "attach_setup env self r = (e, r1)" by (rule prod.exhaust)
  then have s1: "shape r1 = shape ?r0" using shape_attach_setup[of env self r] by simp
  then have i1: "quit_inv r1" using inv0 by (rule quit_inv_shape)
  show ?thesis
  proof (cases e)
    case (Some err)
    have "snd (attach env fuel self r) = r1"
      using su Some by (simp add: attach_def)
    then show ?thesis using i1 by simp
  next
    case None
    let ?r1' = "register_socket_listeners self r1"
    obtain b r2 where rp: "replay env fuel self 0 ?r1' = (b, r2)" by (rule prod.exhaust)
    have i1': "quit_inv ?r1'"
      unfolding register_socket_listeners_def
      by (rule quit_inv_update_session[OF i1]) (use quit_invD[OF i1, of self] in auto)
    have "shape r2 = shape ?r1'" using rp shape_replay[of env fuel self 0 ?r1'] by simp
    then have i2: "quit_inv r2" using i1' by (rule quit_inv_shape)
    have i3: "quit_inv (remove_pause self r2)"
      unfolding remove_pause_def
      by (rule quit_inv_update_session[OF i2]) (use quit_invD[OF i2, of self] in auto)
    have "snd (attach env fuel self r) = (if b then remove_pause self r2 else r2)"
      using su None rp by (simp add: attach_def resumeWebsocket_def)
    then show ?thesis using i2 i3 by simp
  qed
qed

lemma shape_remove_maps: "shape (snd (remove_maps env self arrayId ks r)) = shape r"
proof (induction ks arbitrary: r)
  case Nil
  show ?case by simp
next
  case (Cons k ks)
  obtain e r1 where p: "proxyMessageToPeers self (Binary (serializeMessage env (RemoveUpdate arrayId k))) r = (e, r1)"
    by (cases "proxyMessageToPeers self (Binary (serializeMessage env (RemoveUpdate arrayId k))) r")
  then have "shape r1 = shape r"
    using shape_proxy[of self "Binary (serializeMessage env (RemoveUpdate arrayId k))" r] by simp
  then show ?case using p Cons.IH[of r1] by (cases e) simp_all
qed

lemma shape_deadHands_loop: "shape (snd (deadHands_loop env self ds r)) = shape r"
proof (induction ds arbitrary: r)
  case Nil
  show ?case by simp
next
  case (Cons d ds)
  obtain key arrayId idx where d: "d = (key, arrayId, idx)" by (cases d) auto
  obtain e r1 where p: "(case idx of
              Some i \<Rightarrow>
                if hasKey (dataClient r) arrayId i
                then proxyMessageToPeers self (Binary (serializeMessage env (RemoveUpdate arrayId i))) r
                else (None, r)
            | None \<Rightarrow> remove_maps env self arrayId (getKeys (dataClient r) arrayId) r) = (e, r1)"
    by (rule prod.exhaust)
  have "shape r1 = shape r"
  proof (cases idx)
    case None
    with p show ?thesis
      using shape_remove_maps[of env self arrayId "getKeys (dataClient r) arrayId" r] by simp
  next
    case (Some i)
    with p show ?thesis
      using shape_proxy[of self "Binary (serializeMessage env (RemoveUpdate arrayId i))" r]
      by (cases "hasKey (dataClient r) arrayId i") simp_all
  qed
  then show ?case using d p Cons.IH[of r1] by (cases e) simp_all
qed

lemma shape_triggerDeadHands: "shape (snd (triggerDeadHands env self r)) = shape r"
  by (simp add: triggerDeadHands_def shape_deadHands_loop)

lemma shape_triggerUnlocks: "shape (snd (triggerUnlocks self r)) = shape r"
  by (simp add: triggerUnlocks_def shape_def)

lemma quit_inv_close:
  assumes inv: "quit_inv r"
  shows "quit_inv (close_event env self r)"
proof (cases "closeListener (heap r self)")
  case False
  then show ?thesis using inv by (simp add: close_event_def)
next
  case True
  let ?r0 = "(update_session self (\<lambda>s. s\<lparr>quit := True\<rparr>) r)
                \<lparr>sessions := filter (\<lambda>member. member \<noteq> self) (sessions r)\<rparr>"
  obtain e r1 where t: "and_then (triggerDeadHands env self) (triggerUnlocks self) ?r0 = (e, r1)"
    by (rule prod.exhaust)
  have i0: "quit_inv ?r0"
    unfolding quit_inv_def
  proof (intro allI)
    fix a
    show "(quit (heap ?r0 a) \<longrightarrow> a \<notin> set (sessions ?r0) \<and> SessionOnmessage \<in> set (messageListeners (heap ?r0 a)))
        \<and> (closeListener (heap ?r0 a) \<longrightarrow> SessionOnmessage \<in> set (messageListeners (heap ?r0 a)))"
    proof (cases "a = self")
      case same: True
      then show ?thesis using quit_invD(3)[OF inv, of self] True by (simp add: update_session_def)
    next
      case False
      then show ?thesis using quit_invD[OF inv, of a] by (simp add: update_session_def)
    qed
  qed
  have "shape r1 = shape ?r0"
    using t shape_and_then[of "triggerDeadHands env self" "triggerUnlocks self" ?r0]
    by (simp add: shape_triggerDeadHands shape_triggerUnlocks)
  then have i1: "quit_inv r1" using i0 by (rule quit_inv_shape)
  have i2: "quit_inv (update_session self (\<lambda>s. s\<lparr>closeListener := False\<rparr>) r1)"
    by (rule quit_inv_update_session[OF i1]) (use quit_invD[OF i1, of self] in auto)
  have "close_event env self r = update_session self (\<lambda>s. s\<lparr>closeListener := False\<rparr>) r1"
    using True t by (simp add: close_event_def closeOrErrorHandler_def)
  then show ?thesis using i2 by simp
qed

lemma quit_inv_connect:
  assumes "quit_inv r"
  shows "quit_inv (accept_and_pause self pid (r\<lparr>heap := (heap r)(self := new_socket throws)\<rparr>))"
proof -
  let ?r' = "accept_and_pause self pid (r\<lparr>heap := (heap r)(self := new_socket throws)\<rparr>)"
  have h: "\<And>a. a \<noteq> self \<Longrightarrow> heap ?r' a = heap r a"
    by (simp add: accept_and_pause_def pauseWebSocket_def update_session_def)
  have s: "\<not> quit (heap ?r' self)" "\<not> closeListener (heap ?r' self)"
    by (simp_all add: accept_and_pause_def pauseWebSocket_def update_session_def new_socket_def)
  have ses: "sessions ?r' = sessions r"
    by (simp add: accept_and_pause_def pauseWebSocket_def update_session_def)
  show ?thesis
    unfolding quit_inv_def
  proof (intro allI)
    fix a
    show "(quit (heap ?r' a) \<longrightarrow> a \<notin> set (sessions ?r') \<and> SessionOnmessage \<in> set (messageListeners (heap ?r' a)))
        \<and> (closeListener (heap ?r' a) \<longrightarrow> SessionOnmessage \<in> set (messageListeners (heap ?r' a)))"
    proof (cases "a = self")
      case True
      then show ?thesis using s by simp
    next
      case False
      then show ?thesis using assms h[of a] ses by (simp add: quit_inv_def)
    qed
  qed
qed

lemma reachable_quit_inv: "reachable env r \<Longrightarrow> quit_inv r"
proof (induction rule: reachable.induct)
  case (start r)
  then show ?case by (simp add: quit_inv_def new_socket_def)
next
  case (connect r self pid throws)
  then show ?case by (simp add: quit_inv_connect)
next
  case (arrive r self d)
  then show ?case by (intro quit_inv_shape[OF shape_dispatchEvent])
next
  case (attach r self fuel)
  then show ?case by (simp add: quit_inv_attach)
next
  case (close r self)
  then show ?case by (simp add: quit_inv_close)
qed

subsection \<open>What the handlers send and queue\<close>

lemma quiet_refl: "quiet r r"
  by (simp add: quiet_def)

lemma quiet_trans: "quiet r r1 \<Longrightarrow> quiet r1 r2 \<Longrightarrow> quiet r r2"
  unfolding quiet_def
proof (intro allI conjI)
  fix a
  assume 1: "\<forall>a. queue (heap r1 a) = queue (heap r a) \<and> (\<exists>ms. sent (heap r1 a) = sent (heap r a) @ ms)"
    and 2: "\<forall>a. queue (heap r2 a) = queue (heap r1 a) \<and> (\<exists>ms. sent (heap r2 a) = sent (heap r1 a) @ ms)"
  show "queue (heap r2 a) = queue (heap r a)" using 1 2 by simp
  obtain ms where "sent (heap r1 a) = sent (heap r a) @ ms" using 1 by blast
  moreover obtain ms' where "sent (heap r2 a) = sent (heap r1 a) @ ms'" using 2 by blast
  ultimately have "sent (heap r2 a) = sent (heap r a) @ (ms @ ms')" by simp
  then show "\<exists>ms. sent (heap r2 a) = sent (heap r a) @ ms" by blast
qed

lemma quiet_deliver: "quiet r (deliver f r)"
  by (simp add: quiet_def deliver_simps)

lemma quiet_update_session:
  assumes "\<And>s. queue (f s) = queue s \<and> sent (f s) = sent s"
  shows "quiet r (update_session a f r)"
  using assms by (simp add: quiet_def update_session_def)

lemma quiet_send_result: "quiet r (snd (send_result r ts m))"
  by (simp add: send_result_def quiet_deliver)

lemma quiet_and_then:
  assumes "\<And>r. quiet r (snd (f r))" "\<And>r. quiet r (snd (g r))"
  shows "quiet r (snd (and_then f g r))"
proof (cases "f r")
  case (Pair e r1)
  then have 1: "quiet r r1" using assms(1)[of r] by simp
  show ?thesis
  proof (cases e)
    case None
    then show ?thesis using Pair 1 assms(2)[of r1] by (auto simp: and_then_def intro: quiet_trans)
  next
    case (Some err)
    then show ?thesis using Pair 1 by (simp add: and_then_def)
  qed
qed

lemma quiet_proxy: "quiet r (snd (proxyMessageToPeers self m r))"
  by (simp add: proxyMessageToPeers_def proxy_loop_result quiet_send_result)

lemma quiet_reflect: "quiet r (snd (reflectMessageToPeers m r))"
  by (simp add: reflectMessageToPeers_def reflect_loop_result quiet_send_result)

lemma quiet_ws_send: "quiet r (snd (ws_send self m r))"
  by (simp add: ws_send_result quiet_send_result)

lemma quiet_respond: "quiet r (snd (respondToSelf self m r))"
  by (simp add: respondToSelf_def quiet_ws_send)

lemma quiet_data_listener: "quiet r (snd (data_listener l e r))"
  by (cases e) (auto simp: data_listener_def quiet_refl quiet_update_session split: prod.splits)

lemma quiet_dispatch_data_event: "quiet r (snd (dispatch_data_event ls e r))"
proof (induction ls arbitrary: r)
  case Nil
  show ?case by (simp add: quiet_refl)
next
  case (Cons l ls)
  obtain err r1 where d: "data_listener l e r = (err, r1)" by (cases "data_listener l e r")
  then have 1: "quiet r r1" using quiet_data_listener[of r l e] by simp
  show ?case
  proof (cases err)
    case None
    then show ?thesis using d quiet_trans[OF 1 Cons.IH[of r1]] by simp
  next
    case (Some x)
    then show ?thesis using d 1 by simp
  qed
qed

lemma quiet_client_update: "quiet r (r\<lparr>dataClient := dc\<rparr>)" "quiet r (r\<lparr>crdtClient := c\<rparr>)" "quiet r (r\<lparr>lockClient := l\<rparr>)"
  by (simp_all add: quiet_def)

lemma quiet_emitUpdate: "quiet r (snd (emitUpdate u r))"
  unfolding emitUpdate_def
  by (rule quiet_trans[OF quiet_client_update(1) quiet_dispatch_data_event])

lemma quiet_ok: "quiet r (snd (ok r))"
  by (simp add: ok_def quiet_refl)

lemma quiet_data_branch: "quiet r (snd (data_branch env self b m r))"
proof (cases "dataHandlesMethod env m")
  case False
  then show ?thesis by (simp add: data_branch_def quiet_refl)
next
  case True
  obtain rollback update dc where a: "applyUint8Array env b (dataClient r) = ((rollback, update), dc)"
    by (cases "applyUint8Array env b (dataClient r)") auto
  have 1: "\<And>r. quiet r (snd ((case rollback of Some rb \<Rightarrow> respondToSelf self (Binary (serializeMessage env rb)) | None \<Rightarrow> ok) r))"
    by (cases rollback) (simp_all add: quiet_ok quiet_respond)
  have 2: "\<And>r. quiet r (snd ((case update of Some u \<Rightarrow> and_then (emitUpdate u) (proxyMessageToPeers self (Binary b)) | None \<Rightarrow> ok) r))"
    by (cases update) (simp_all add: quiet_ok quiet_and_then quiet_emitUpdate quiet_proxy)
  show ?thesis using True a
      quiet_trans[OF quiet_client_update(1)[of r dc] quiet_and_then[OF 1 2, of "r\<lparr>dataClient := dc\<rparr>"]]
    by (simp add: data_branch_def)
qed

lemma quiet_crdt_branch: "quiet r (snd (crdt_branch env self b m args r))"
  using quiet_trans[OF quiet_client_update(2) quiet_proxy]
  by (simp add: crdt_branch_def quiet_refl)

lemma quiet_lock_branch: "quiet r (snd (lock_branch env self m args r))"
  by (simp add: lock_branch_def quiet_refl quiet_client_update)

lemma quiet_irc_branch: "quiet r (snd (irc_branch env b m r))"
  by (simp add: irc_branch_def quiet_reflect quiet_refl)

lemma quiet_av_branch: "quiet r (snd (av_branch env self b m r))"
  by (simp add: av_branch_def quiet_proxy quiet_refl)

lemma quiet_handleBinaryMessage: "quiet r (snd (handleBinaryMessage env self b r))"
proof (cases "parseUpdateObject env b")
  case (Inl e)
  then show ?thesis by (simp add: handleBinaryMessage_def quiet_refl)
next
  case (Inr ma)
  then show ?thesis
    by (cases ma)
      (simp add: handleBinaryMessage_def quiet_and_then quiet_data_branch quiet_crdt_branch
        quiet_lock_branch quiet_irc_branch quiet_av_branch)
qed

lemma quiet_session_onmessage: "quiet r (session_onmessage env self d r)"
proof (cases "quit (heap r self)")
  case True
  then show ?thesis by (simp add: session_onmessage_def quiet_update_session)
next
  case False
  obtain err r1 where h: "(case d of ArrayBuffer ab \<Rightarrow> handleBinaryMessage env self ab r
             | TextFrame t \<Rightarrow> (Some (Error ''got non-binary message''), r)) = (err, r1)"
    by (rule prod.exhaust)
  have 1: "quiet r r1"
  proof (cases d)
    case (ArrayBuffer ab)
    with h have "handleBinaryMessage env self ab r = (err, r1)" by simp
    then show ?thesis using quiet_handleBinaryMessage[of r env self ab] by simp
  next
    case (TextFrame t)
    with h show ?thesis by (simp add: quiet_refl)
  qed
  show ?thesis
  proof (cases err)
    case None
    then show ?thesis using False h 1 by (simp add: session_onmessage_def)
  next
    case (Some x)
    then show ?thesis using False h quiet_trans[OF 1 quiet_ws_send[of r1 self "ErrorJson x"]]
      by (simp add: session_onmessage_def)
  qed
qed

lemma sent_grows_refl: "sent_grows r r"
  by (simp add: sent_grows_def)

lemma sent_grows_trans: "sent_grows r r1 \<Longrightarrow> sent_grows r1 r2 \<Longrightarrow> sent_grows r r2"
  unfolding sent_grows_def
proof (intro allI)
  fix a
  assume 1: "\<forall>a. \<exists>ms. sent (heap r1 a) = sent (heap r a) @ ms"
    and 2: "\<forall>a. \<exists>ms. sent (heap r2 a) = sent (heap r1 a) @ ms"
  obtain ms where "sent (heap r1 a) = sent (heap r a) @ ms" using 1 by blast
  moreover obtain ms' where "sent (heap r2 a) = sent (heap r1 a) @ ms'" using 2 by blast
  ultimately have "sent (heap r2 a) = sent (heap r a) @ (ms @ ms')" by simp
  then show "\<exists>ms. sent (heap r2 a) = sent (heap r a) @ ms" by blast
qed

lemma quiet_sent_grows: "quiet r r' \<Longrightarrow> sent_grows r r'"
  by (simp add: quiet_def sent_grows_def)

lemma quiet_queue: "quiet r r' \<Longrightarrow> queue (heap r' a) = queue (heap r a)"
  by (simp add: quiet_def)

lemma sent_grows_update_session:
  assumes "\<And>s. sent (f s) = sent s"
  shows "sent_grows r (update_session a f r)"
  using assms by (simp add: sent_grows_def update_session_def)

lemma run_listeners_queue:
  "queue (heap (run_listeners env self d ls r) self)
     = queue (heap r self) @ replicate (count_list ls PauseOnmessage) d"
proof (induction ls arbitrary: r)
  case Nil
  show ?case by simp
next
  case (Cons l ls)
  show ?case
  proof (cases l)
    case PauseOnmessage
    then show ?thesis using Cons.IH[of "update_session self (\<lambda>s. s\<lparr>queue := queue s @ [d]\<rparr>) r"]
      by (simp add: update_session_def replicate_append_same)
  next
    case SessionOnmessage
    then show ?thesis
      using Cons.IH[of "session_onmessage env self d r"]
        quiet_queue[OF quiet_session_onmessage, of env self d r self]
      by simp
  qed
qed

lemma sent_grows_run_listeners: "sent_grows r (run_listeners env self d ls r)"
proof (induction ls arbitrary: r)
  case Nil
  show ?case by (simp add: sent_grows_refl)
next
  case (Cons l ls)
  show ?case
  proof (cases l)
    case PauseOnmessage
    have "sent_grows r (update_session self (\<lambda>s. s\<lparr>queue := queue s @ [d]\<rparr>) r)"
      by (rule sent_grows_update_session) simp
    from sent_grows_trans[OF this Cons.IH] show ?thesis using PauseOnmessage by simp
  next
    case SessionOnmessage
    have "sent_grows r (session_onmessage env self d r)"
      by (rule quiet_sent_grows[OF quiet_session_onmessage])
    from sent_grows_trans[OF this Cons.IH] show ?thesis using SessionOnmessage by simp
  qed
qed

lemma sent_grows_dispatchEvent: "sent_grows r (dispatchEvent env self d r)"
  by (simp add: dispatchEvent_def sent_grows_run_listeners)

lemma sent_grows_replay: "sent_grows r (snd (replay env n self i r))"
proof (induction n arbitrary: i r)
  case 0
  show ?case by (simp add: sent_grows_refl)
next
  case (Suc n)
  show ?case
    using sent_grows_trans[OF sent_grows_dispatchEvent Suc.IH]
    by (simp add: sent_grows_refl)
qed

text \<open>The replay loop never comes to its end on a queue that holds a frame.\<close>

lemma replay_stuck:
  assumes "PauseOnmessage \<in> set (messageListeners (heap r self))"
    and "i < length (queue (heap r self))"
  shows "fst (replay env n self i r) = False"
  using assms
proof (induction n arbitrary: i r)
  case 0
  then show ?case by simp
next
  case (Suc n)
  let ?r' = "dispatchEvent env self (queue (heap r self) ! i) r"
  have ml: "messageListeners (heap ?r' self) = messageListeners (heap r self)"
    by (rule shape_eqD(5)[OF shape_dispatchEvent])
  have "count_list (messageListeners (heap r self)) PauseOnmessage \<noteq> 0"
    using Suc.prems(1) count_list_0_iff[of "messageListeners (heap r self)" PauseOnmessage] by simp
  then have "Suc i < length (queue (heap ?r' self))"
    using Suc.prems(2) by (simp add: dispatchEvent_def run_listeners_queue)
  then have "fst (replay env n self (Suc i) ?r') = False"
    using Suc.IH[of ?r' "Suc i"] ml Suc.prems(1) by simp
  then show ?case using Suc.prems(2) by simp
qed

lemma replay_empty:
  assumes "queue (heap r self) = []"
  shows "replay env n self 0 r = (True, r)"
  using assms by (cases n) simp_all

lemma snapshot_messages_deliver:
  "getImportMessage (deliver f r) = getImportMessage r"
  "getInitialUpdateMessage (deliver f r) = getInitialUpdateMessage r"
  "getNetworkInitMessage (deliver f r) = getNetworkInitMessage r"
  by (simp_all add: getImportMessage_def getInitialUpdateMessage_def getNetworkInitMessage_def deliver_simps)

lemma send_snapshots_result:
  "send_snapshots env self r =
     (if sendThrows (heap r self) then (Some (Error ''send failed''), r)
      else (None, deliver (\<lambda>a. if a = self then snapshots env r else []) r))"
proof (cases "sendThrows (heap r self)")
  case True
  then show ?thesis by (simp add: send_snapshots_def and_then_def ws_send_eq)
next
  case False
  let ?m1 = "Binary (serializeMessage env (getImportMessage r))"
  let ?m2 = "Binary (serializeMessage env (getInitialUpdateMessage r))"
  let ?m3 = "Binary (serializeMessage env (getNetworkInitMessage r))"
  let ?one = "\<lambda>m a. if a = self then [m] else []"
  let ?r1 = "deliver (?one ?m1) r"
  let ?r2 = "deliver (?one ?m2) ?r1"
  have ok1: "\<not> sendThrows (heap ?r1 self)" and ok2: "\<not> sendThrows (heap ?r2 self)"
    using False by (simp_all add: deliver_simps)
  have s1: "ws_send self ?m1 r = (None, ?r1)" using False by (simp add: ws_send_eq)
  have s2: "ws_send self (Binary (serializeMessage env (getInitialUpdateMessage ?r1))) ?r1 = (None, ?r2)"
    using ok1 by (simp add: ws_send_eq snapshot_messages_deliver)
  have s3: "ws_send self (Binary (serializeMessage env (getNetworkInitMessage ?r2))) ?r2
      = (None, deliver (?one ?m3) ?r2)"
    using ok2 by (simp add: ws_send_eq snapshot_messages_deliver)
  have "(\<lambda>a. (?one ?m1 a @ ?one ?m2 a) @ ?one ?m3 a) = (\<lambda>a. if a = self then snapshots env r else [])"
    by (auto simp: fun_eq_iff snapshots_def)
  then have "deliver (?one ?m3) ?r2 = deliver (\<lambda>a. if a = self then snapshots env r else []) r"
    by (simp only: deliver_deliver)
  then show ?thesis using False s1 s2 s3 by (simp add: send_snapshots_def and_then_def)
qed

lemma quiet_send_snapshots: "quiet r (snd (send_snapshots env self r))"
  by (simp add: send_snapshots_result quiet_refl quiet_deliver)

lemma quiet_sendJoinMessage: "quiet r (snd (sendJoinMessage env self pid r))"
  by (cases pid) (simp_all add: sendJoinMessage_def quiet_refl quiet_and_then quiet_emitUpdate quiet_proxy)

lemma quiet_register_data_listeners: "quiet r (register_data_listeners self r)"
  by (simp add: register_data_listeners_def quiet_def update_session_def)

lemma quiet_attach_setup: "quiet r (snd (attach_setup env self r))"
proof -
  have 0: "quiet r (r\<lparr>sessions := sessions r @ [self]\<rparr>)" by (simp add: quiet_def)
  have 1: "\<And>r. quiet r (snd ((\<lambda>r. (None, register_data_listeners self r)) r))"
    by (simp add: quiet_register_data_listeners)
  have 2: "\<And>r. quiet r (snd ((\<lambda>r. sendJoinMessage env self (playerId (heap r self)) r) r))"
    by (simp add: quiet_sendJoinMessage)
  show ?thesis
    unfolding attach_setup_def
    by (rule quiet_trans[OF 0 quiet_and_then[OF quiet_send_snapshots quiet_and_then[OF 1 2]]])
qed

lemma attach_never_returns_after_buffering:
  assumes "messageListeners (heap r self) = [PauseOnmessage]"
    and "queue (heap r self) \<noteq> []"
  shows "fst (attach env fuel self r) \<noteq> Returned"
proof -
  obtain e r1 where su: "attach_setup env self r = (e, r1)" by (rule prod.exhaust)
  have q: "queue (heap r1 self) = queue (heap r self)"
    using quiet_queue[OF quiet_attach_setup, of env self r self] su by simp
  have "shape r1 = shape (r\<lparr>sessions := sessions r @ [self]\<rparr>)"
    using shape_attach_setup[of env self r] su by simp
  then have ml: "messageListeners (heap r1 self) = [PauseOnmessage]"
    using shape_eqD(5)[of r1 "r\<lparr>sessions := sessions r @ [self]\<rparr>" self] assms(1) by simp
  show ?thesis
  proof (cases e)
    case (Some err)
    then show ?thesis using su by (simp add: attach_def)
  next
    case None
    let ?r2 = "register_socket_listeners self r1"
    have "PauseOnmessage \<in> set (messageListeners (heap ?r2 self))"
      using ml by (simp add: register_socket_listeners_def update_session_def)
    moreover have "0 < length (queue (heap ?r2 self))"
      using q assms(2) by (simp add: register_socket_listeners_def update_session_def)
    ultimately have "fst (replay env fuel self 0 ?r2) = False" by (rule replay_stuck)
    then show ?thesis using su None
      by (cases "replay env fuel self 0 ?r2") (simp add: attach_def resumeWebsocket_def)
  qed
qed

subsection \<open>The concrete rooms are reachable\<close>

lemma reachable_room_a: "reachable demo_env room_a"
  unfolding room_a_def
  by (intro reachable.attach reachable.connect reachable.start)
    (simp_all add: empty_room_def accept_and_pause_def pauseWebSocket_def update_session_def new_socket_def)

lemma reachable_room_ab: "reachable demo_env room_ab"
  unfolding room_ab_def
  by (intro reachable.attach reachable.connect reachable_room_a) code_simp+

lemma reachable_room_abc: "reachable demo_env room_abc"
  unfolding room_abc_def
  by (intro reachable.attach reachable.connect reachable_room_ab) code_simp+

subsection \<open>C4: the three send primitives\<close>

text \<open>
  Claim C4, as amended. Each of the three primitives sends the message, in list order, to
  its targets (the originator for \<^verbatim>\<open>respondToSelf\<close>, the sessions of the list other than
  the originator for \<^verbatim>\<open>proxyMessageToPeers\<close>, all sessions of the list for
  \<^verbatim>\<open>reflectMessageToPeers\<close>) up to the first target whose \<^verbatim>\<open>send\<close> throws: that
  exception ends the loop and reaches the caller, and the targets after it receive nothing.
  None of the primitives looks at the \<^verbatim>\<open>quit\<close> flag; in every room the coordinator can
  reach, a session whose flag is set is no longer in the session list, so no broadcast
  reaches it.
\<close>

theorem broadcast_stops_at_first_failure:
  "respondToSelf self m r = send_result r [self] m
   \<and> proxyMessageToPeers self m r = send_result r (filter (\<lambda>s. s \<noteq> self) (sessions r)) m
   \<and> reflectMessageToPeers m r = send_result r (sessions r) m
   \<and> (reachable env r \<longrightarrow> (\<forall>a. quit (heap r a) \<longrightarrow> a \<notin> set (sessions r)))"
proof (intro conjI impI allI)
  show "respondToSelf self m r = send_result r [self] m"
    by (simp add: respondToSelf_def ws_send_result)
  show "proxyMessageToPeers self m r = send_result r (filter (\<lambda>s. s \<noteq> self) (sessions r)) m"
    by (simp add: proxyMessageToPeers_def proxy_loop_result)
  show "reflectMessageToPeers m r = send_result r (sessions r) m"
    by (simp add: reflectMessageToPeers_def reflect_loop_result)
next
  fix a
  assume "reachable env r" "quit (heap r a)"
  then show "a \<notin> set (sessions r)"
    using quit_invD(1)[OF reachable_quit_inv, of env r a] by simp
qed

theorem broadcast_stops_at_first_failure_witness:
  "reachable demo_env room_abc
   \<and> proxyMessageToPeers 1 (Binary [7, 7]) room_abc = send_result room_abc [2, 3] (Binary [7, 7])
   \<and> reached room_abc [2, 3] = []
   \<and> \<not> quit (heap room_abc 2)"
proof -
  have s: "sessions room_abc = [1, 2, 3]" by code_simp
  have r: "reached room_abc [2, 3] = []" by code_simp
  note t = broadcast_stops_at_first_failure[of 1 "Binary [7, 7]" room_abc demo_env]
  have p: "proxyMessageToPeers 1 (Binary [7, 7]) room_abc = send_result room_abc [2, 3] (Binary [7, 7])"
    using t s by simp
  have "\<forall>a. quit (heap room_abc a) \<longrightarrow> a \<notin> set (sessions room_abc)"
    using t reachable_room_abc by blast
  then have "\<not> quit (heap room_abc 2)" using s by auto
  then show ?thesis using reachable_room_abc p r by simp
qed

text \<open>
  Claim C4 as stated fails: with sessions 1, 2 and 3 attached and the \<^verbatim>\<open>send\<close> of
  session 2 throwing, a message proxied from session 1 or reflected to all never reaches
  session 3 (which has not quit and whose \<^verbatim>\<open>send\<close> works), and the exception leaves
  the loop.
\<close>

theorem broadcast_aborted_counterexample:
  "sessions room_abc = [1, 2, 3]
   \<and> sendThrows (heap room_abc 2) \<and> \<not> sendThrows (heap room_abc 3) \<and> \<not> quit (heap room_abc 3)
   \<and> fst (proxyMessageToPeers 1 (Binary [7, 7]) room_abc) = Some (Error ''send failed'')
   \<and> sent (heap (snd (proxyMessageToPeers 1 (Binary [7, 7]) room_abc)) 3) = sent (heap room_abc 3)
   \<and> fst (reflectMessageToPeers (Binary [7, 7]) room_abc) = Some (Error ''send failed'')
   \<and> sent (heap (snd (reflectMessageToPeers (Binary [7, 7]) room_abc)) 3) = sent (heap room_abc 3)"
  by code_simp

subsection \<open>C9: a request that is not a WebSocket upgrade\<close>

text \<open>
  Claim C9. A request to the room object's \<^verbatim>\<open>websocket\<close> endpoint whose
  \<^verbatim>\<open>Upgrade\<close> header is not \<^verbatim>\<open>websocket\<close> (or is missing) is answered with status 400
  and the body \<^verbatim>\<open>expected websocket\<close>; no session is attached: the promise tables and the
  room are as they were.
\<close>

theorem fetch_expected_websocket:
  assumes "match_pathname (pathname req) = Some (roomName, ''websocket'')"
    and "upgrade req \<noteq> Some ''websocket''"
  shows "fetch env st fuel arrivals self throws req (w, r) = (Response 400 ''expected websocket'', w, r)"
  using assms by (simp add: fetch_def)

theorem fetch_expected_websocket_witness:
  "match_pathname ''/r1/websocket'' = Some (''r1'', ''websocket'')
   \<and> fetch demo_env (\<lambda>room key. None) 5 [] 4 False
        \<lparr>pathname = ''/r1/websocket'', upgrade = Some ''h2c'', playerIdParam = Some ''d''\<rparr> (no_promises, room_abc)
      = (Response 400 ''expected websocket'', no_promises, room_abc)"
proof -
  have m: "match_pathname ''/r1/websocket'' = Some (''r1'', ''websocket'')"
    by (simp add: match_pathname_def)
  show ?thesis
    using m fetch_expected_websocket[of "\<lparr>pathname = ''/r1/websocket'', upgrade = Some ''h2c'', playerIdParam = Some ''d''\<rparr>"
        "''r1''" demo_env "\<lambda>room key. None" 5 "[]" 4 False no_promises room_abc]
    by simp
qed

subsection \<open>C2: the attach sequence\<close>

lemma fold_dispatch_paused:
  assumes "messageListeners (heap r self) = [PauseOnmessage]"
  shows "messageListeners (heap (fold (dispatchEvent env self) ds r) self) = [PauseOnmessage]
       \<and> queue (heap (fold (dispatchEvent env self) ds r) self) = queue (heap r self) @ ds"
  using assms
proof (induction ds arbitrary: r)
  case Nil
  then show ?case by simp
next
  case (Cons d ds)
  let ?r' = "dispatchEvent env self d r"
  have ml: "messageListeners (heap ?r' self) = [PauseOnmessage]"
    using shape_eqD(5)[OF shape_dispatchEvent, of env self d r self] Cons.prems by simp
  have q: "queue (heap ?r' self) = queue (heap r self) @ [d]"
    using Cons.prems by (simp add: dispatchEvent_def update_session_def)
  show ?case using Cons.IH[OF ml] q by simp
qed

lemma sent_grows_attach_after_snapshots:
  assumes "\<not> sendThrows (heap r self)"
  shows "sent_grows (deliver (\<lambda>a. if a = self then snapshots env (r\<lparr>sessions := sessions r @ [self]\<rparr>) else [])
                       (r\<lparr>sessions := sessions r @ [self]\<rparr>))
                    (snd (attach env fuel self r))"
proof -
  let ?r0 = "r\<lparr>sessions := sessions r @ [self]\<rparr>"
  let ?rs = "deliver (\<lambda>a. if a = self then snapshots env ?r0 else []) ?r0"
  let ?rest = "and_then (\<lambda>r. (None, register_data_listeners self r))
                 (\<lambda>r. sendJoinMessage env self (playerId (heap r self)) r)"
  have ss: "send_snapshots env self ?r0 = (None, ?rs)"
    using assms by (simp add: send_snapshots_result)
  have su: "attach_setup env self r = ?rest ?rs"
    using ss by (simp add: attach_setup_def and_then_def)
  have 1: "\<And>r. quiet r (snd ((\<lambda>r. (None, register_data_listeners self r)) r))"
    by (simp add: quiet_register_data_listeners)
  have 2: "\<And>r. quiet r (snd ((\<lambda>r. sendJoinMessage env self (playerId (heap r self)) r) r))"
    by (simp add: quiet_sendJoinMessage)
  obtain e r1 where e: "?rest ?rs = (e, r1)" by (rule prod.exhaust)
  have g1: "sent_grows ?rs r1"
    using quiet_sent_grows[OF quiet_and_then[OF 1 2, of ?rs]] e by simp
  show ?thesis
  proof (cases e)
    case (Some err)
    then show ?thesis using su e g1 by (simp add: attach_def)
  next
    case None
    let ?r2 = "register_socket_listeners self r1"
    have g2: "sent_grows r1 ?r2"
      unfolding register_socket_listeners_def by (rule sent_grows_update_session) simp
    obtain b r3 where rp: "replay env fuel self 0 ?r2 = (b, r3)" by (rule prod.exhaust)
    have g3: "sent_grows ?r2 r3" using sent_grows_replay[of ?r2 env fuel self 0] rp by simp
    have g4: "sent_grows r3 (remove_pause self r3)"
      unfolding remove_pause_def by (rule sent_grows_update_session) simp
    have g13: "sent_grows ?rs r3" by (rule sent_grows_trans[OF sent_grows_trans[OF g1 g2] g3])
    have "snd (attach env fuel self r) = (if b then remove_pause self r3 else r3)"
      using su e None rp by (simp add: attach_def resumeWebsocket_def)
    then show ?thesis using g13 sent_grows_trans[OF g13 g4] by simp
  qed
qed

lemma sessions_attach: "sessions (snd (attach env fuel self r)) = sessions r @ [self]"
proof -
  obtain e r1 where su: "attach_setup env self r = (e, r1)" by (rule prod.exhaust)
  have "shape r1 = shape (r\<lparr>sessions := sessions r @ [self]\<rparr>)"
    using shape_attach_setup[of env self r] su by simp
  then have s1: "sessions r1 = sessions r @ [self]"
    using shape_eqD(1)[of r1 "r\<lparr>sessions := sessions r @ [self]\<rparr>"] by simp
  show ?thesis
  proof (cases e)
    case (Some err)
    then show ?thesis using su s1 by (simp add: attach_def)
  next
    case None
    let ?r2 = "register_socket_listeners self r1"
    obtain b r3 where rp: "replay env fuel self 0 ?r2 = (b, r3)" by (rule prod.exhaust)
    have "sessions r3 = sessions ?r2"
      using shape_eqD(1)[OF shape_replay, of env fuel self 0 ?r2] rp by simp
    then have s3: "sessions r3 = sessions r @ [self]"
      using s1 by (simp add: register_socket_listeners_def update_session_def)
    have "snd (attach env fuel self r) = (if b then remove_pause self r3 else r3)"
      using su None rp by (simp add: attach_def resumeWebsocket_def)
    then show ?thesis using s3 by (simp add: remove_pause_def update_session_def)
  qed
qed

text \<open>
  Claim C2, as amended. \<^verbatim>\<open>handleSession\<close> appends the new session to the room's session
  list first and then sends it the three snapshots, in the order data-client import,
  document-CRDT initial update, network-init: provided \<^verbatim>\<open>send\<close> on the new socket does
  not throw, they are the first three messages the session is sent. The network-init frame
  lists the non-null player ids of the sessions in the list at that moment, so it ends with
  the attaching session's own player id unless that is null.
\<close>

theorem attach_snapshots_list_self:
  assumes "\<not> sendThrows (heap r self)"
  shows "sessions (snd (attach env fuel self r)) = sessions r @ [self]
   \<and> (\<exists>rest. sent (heap (snd (attach env fuel self r)) self)
          = sent (heap r self) @ snapshots env (r\<lparr>sessions := sessions r @ [self]\<rparr>) @ rest)
   \<and> getNetworkInitMessage (r\<lparr>sessions := sessions r @ [self]\<rparr>)
        = Networkinit (map the (filter (\<lambda>p. p \<noteq> None) (map (\<lambda>s. playerId (heap r s)) (sessions r)))
                       @ (case playerId (heap r self) of None \<Rightarrow> [] | Some p \<Rightarrow> [p]))"
proof (intro conjI)
  show "sessions (snd (attach env fuel self r)) = sessions r @ [self]" by (rule sessions_attach)
  let ?r0 = "r\<lparr>sessions := sessions r @ [self]\<rparr>"
  obtain ms where "sent (heap (snd (attach env fuel self r)) self)
      = sent (heap (deliver (\<lambda>a. if a = self then snapshots env ?r0 else []) ?r0) self) @ ms"
    using sent_grows_attach_after_snapshots[OF assms, of env fuel] unfolding sent_grows_def by blast
  then have "sent (heap (snd (attach env fuel self r)) self) = sent (heap r self) @ snapshots env ?r0 @ ms"
    by (simp add: deliver_simps)
  then show "\<exists>rest. sent (heap (snd (attach env fuel self r)) self) = sent (heap r self) @ snapshots env ?r0 @ rest"
    by blast
  show "getNetworkInitMessage ?r0
        = Networkinit (map the (filter (\<lambda>p. p \<noteq> None) (map (\<lambda>s. playerId (heap r s)) (sessions r)))
                       @ (case playerId (heap r self) of None \<Rightarrow> [] | Some p \<Rightarrow> [p]))"
    by (cases "playerId (heap r self)") (simp_all add: getNetworkInitMessage_def)
qed

theorem attach_snapshots_list_self_witness:
  "\<not> sendThrows (heap (accept_and_pause 1 (Some ''a'') (empty_room\<lparr>heap := (heap empty_room)(1 := new_socket False)\<rparr>)) 1)
   \<and> sessions room_a = [1]
   \<and> take 3 (sent (heap room_a 1)) = [Binary [1], Binary [2], Binary [3, 97, 0]]"
proof -
  let ?r = "accept_and_pause 1 (Some ''a'') (empty_room\<lparr>heap := (heap empty_room)(1 := new_socket False)\<rparr>)"
  have ok: "\<not> sendThrows (heap ?r 1)" by code_simp
  have s0: "sessions ?r = []" "sent (heap ?r 1) = []" by code_simp+
  have sn: "snapshots demo_env (?r\<lparr>sessions := sessions ?r @ [1]\<rparr>) = [Binary [1], Binary [2], Binary [3, 97, 0]]"
    by code_simp
  from attach_snapshots_list_self[OF ok, of demo_env 0]
  show ?thesis using ok s0 sn by (auto simp: room_a_def)
qed

text \<open>
  Claim C2 as stated fails: player \<open>a\<close> attaches to a room without sessions, and the
  network-init frame it receives lists \<open>a\<close>.
\<close>

theorem networkinit_lists_self_counterexample:
  "sessions empty_room = []
   \<and> playerId (heap room_a 1) = Some ''a''
   \<and> sent (heap room_a 1)
       = [Binary (demo_serialize (ImportMessage [(''worldApps'', [''x1'', ''x2''])])),
          Binary (demo_serialize (InitialUpdateMessage [])),
          Binary (demo_serialize (Networkinit [''a'']))]
   \<and> demo_serialize (Networkinit [''a'']) \<noteq> demo_serialize (Networkinit [])"
  by code_simp

subsection \<open>C5, C6 and C7: steady-state dispatch\<close>

lemma sends_refl: "sends r r (\<lambda>a. [])"
  by (simp add: sends_def)

lemma sends_trans:
  assumes "sends r r1 f" "sends r1 r2 g"
  shows "sends r r2 (\<lambda>a. f a @ g a)"
  using assms by (simp add: sends_def)

lemma sends_deliver: "sends r (deliver f r) f"
  by (simp add: sends_def shape_deliver deliver_simps)

lemma sends_cong: "sends r r' f \<Longrightarrow> f = g \<Longrightarrow> sends r r' g"
  by simp

lemma set_deadHands_error: "fst (set_deadHands keys d) = key_error keys"
proof (induction keys arbitrary: d)
  case Nil
  show ?case by (simp add: key_error_def)
next
  case (Cons k ks)
  show ?case
  proof (cases "match_deadhand_key k")
    case None
    then show ?thesis by (simp add: key_error_def)
  next
    case (Some m)
    then show ?thesis using Cons.IH[of "js_map_set k m d"] by (simp add: key_error_def)
  qed
qed

lemma data_listener_sends: "sends r (snd (data_listener l e r)) (\<lambda>a. [])"
proof -
  have "sends r (update_session l (\<lambda>s. s\<lparr>deadHands := d\<rparr>) r) (\<lambda>a. [])" for d
    by (simp add: sends_def shape_update_session) (simp add: update_session_def)
  moreover have "sends r (update_session l (\<lambda>s. s\<lparr>deadHands := f (deadHands s)\<rparr>) r) (\<lambda>a. [])" for f
    by (simp add: sends_def shape_update_session) (simp add: update_session_def)
  ultimately show ?thesis
    by (cases e) (auto simp: data_listener_def sends_refl split: prod.splits)
qed

lemma data_listener_error:
  "fst (data_listener l e r) =
     (case e of Deadhand keys deadHand \<Rightarrow> if deadHand = playerId (heap r l) then key_error keys else None
      | _ \<Rightarrow> None)"
proof (cases e)
  case (Deadhand keys deadHand)
  then show ?thesis
    using set_deadHands_error[of keys "deadHands (heap r l)"]
    by (cases "set_deadHands keys (deadHands (heap r l))") (simp add: data_listener_def)
qed (simp_all add: data_listener_def)

lemma dispatch_data_event_sends: "sends r (snd (dispatch_data_event ls e r)) (\<lambda>a. [])"
proof (induction ls arbitrary: r)
  case Nil
  show ?case by (simp add: sends_refl)
next
  case (Cons l ls)
  obtain err r1 where d: "data_listener l e r = (err, r1)" by (rule prod.exhaust)
  then have 1: "sends r r1 (\<lambda>a. [])" using data_listener_sends[of r l e] by simp
  show ?case
  proof (cases err)
    case None
    then show ?thesis using d sends_trans[OF 1 Cons.IH[of r1]] by simp
  next
    case (Some x)
    then show ?thesis using d 1 by simp
  qed
qed

lemma dispatch_data_event_error:
  "fst (dispatch_data_event ls e r) =
     (case e of
        Deadhand keys deadHand \<Rightarrow>
          if deadHand \<in> set (map (\<lambda>l. playerId (heap r l)) ls) then key_error keys else None
      | _ \<Rightarrow> None)"
proof (induction ls arbitrary: r)
  case Nil
  show ?case by (cases e) simp_all
next
  case (Cons l ls)
  obtain err r1 where d: "data_listener l e r = (err, r1)" by (rule prod.exhaust)
  then have "sends r r1 (\<lambda>a. [])" using data_listener_sends[of r l e] by simp
  then have sh: "shape r1 = shape r" by (simp add: sends_def)
  have p: "(\<lambda>l. playerId (heap r1 l)) = (\<lambda>l. playerId (heap r l))"
    using shape_eqD(3)[OF sh] by (simp add: fun_eq_iff)
  have e1: "err = (case e of Deadhand keys deadHand \<Rightarrow> if deadHand = playerId (heap r l) then key_error keys else None
      | _ \<Rightarrow> None)"
    using data_listener_error[of l e r] d by simp
  show ?case
  proof (cases err)
    case None
    then show ?thesis using d e1 Cons.IH[of r1] p
      by (cases e) (auto split: if_splits)
  next
    case (Some x)
    then show ?thesis using d e1 by (cases e) (auto split: if_splits)
  qed
qed

lemma emitUpdate_sends: "sends r (snd (emitUpdate u r)) (\<lambda>a. [])"
proof -
  let ?r0 = "r\<lparr>dataClient := (dataClient r)\<lparr>emitted := emitted (dataClient r) @ [u]\<rparr>\<rparr>"
  have "sends r ?r0 (\<lambda>a. [])" by (simp add: sends_def shape_def)
  from sends_trans[OF this dispatch_data_event_sends[of ?r0 "dataListeners r" u]]
  show ?thesis by (simp add: emitUpdate_def)
qed

lemma emitUpdate_error: "fst (emitUpdate u r) = emit_error r u"
  by (cases u) (simp_all add: emitUpdate_def dispatch_data_event_error emit_error_def)

lemma runs_and_then:
  assumes "runs f r g" "runs h (snd (f r)) k"
  shows "runs (and_then f h) r (\<lambda>a. g a @ k a)"
proof (cases "f r")
  case (Pair e r1)
  then show ?thesis using assms sends_trans[of r r1 g "snd (h r1)" k]
    by (simp add: runs_def and_then_def)
qed

lemma runs_cong: "runs f r g \<Longrightarrow> g = g' \<Longrightarrow> runs f r g'"
  by simp

lemma all_send_ok_sends: "sends r r' f \<Longrightarrow> all_send_ok r' self = all_send_ok r self"
proof -
  assume "sends r r' f"
  then have sh: "shape r' = shape r" by (simp add: sends_def)
  have "(\<lambda>a. \<not> sendThrows (heap r' a)) = (\<lambda>a. \<not> sendThrows (heap r a))"
    using shape_eqD(4)[OF sh] by (simp add: fun_eq_iff)
  then show ?thesis using shape_eqD(1)[OF sh] by (simp add: all_send_ok_def)
qed

lemma emit_error_sends: "sends r r' f \<Longrightarrow> emit_error r' u = emit_error r u"
proof -
  assume s: "sends r r' f"
  then have sh: "shape r' = shape r" and dl: "dataListeners r' = dataListeners r"
    by (simp_all add: sends_def)
  have "(\<lambda>l. playerId (heap r' l)) = (\<lambda>l. playerId (heap r l))"
    using shape_eqD(3)[OF sh] by (simp add: fun_eq_iff)
  then show ?thesis using dl by (cases u) (simp_all add: emit_error_def)
qed

lemma sessions_sends: "sends r r' f \<Longrightarrow> sessions r' = sessions r"
  using shape_eqD(1)[of r' r] by (simp add: sends_def)

lemma reached_all:
  assumes "list_all (\<lambda>a. \<not> sendThrows (heap r a)) ts"
  shows "reached r ts = ts"
  using assms by (simp add: reached_def list_all_iff)

lemma count_list_filter: "count_list (filter P xs) a = (if P a then count_list xs a else 0)"
  by (induction xs) auto

lemma runs_respond:
  assumes "all_send_ok r self"
  shows "runs (respondToSelf self m) r (\<lambda>a. if a = self then [m] else [])"
  using assms by (simp add: runs_def respondToSelf_def ws_send_eq all_send_ok_def sends_deliver)

lemma runs_proxy:
  assumes "all_send_ok r self"
  shows "runs (proxyMessageToPeers self m) r
           (\<lambda>a. if a = self then [] else replicate (count_list (sessions r) a) m)"
proof -
  have ok: "list_all (\<lambda>a. \<not> sendThrows (heap r a)) (filter (\<lambda>s. s \<noteq> self) (sessions r))"
    using assms by (simp add: all_send_ok_def list_all_iff)
  have "(\<lambda>a. replicate (count_list (filter (\<lambda>s. s \<noteq> self) (sessions r)) a) m)
      = (\<lambda>a. if a = self then [] else replicate (count_list (sessions r) a) m)"
    by (simp add: fun_eq_iff count_list_filter)
  then show ?thesis
    using sends_deliver[of r "\<lambda>a. replicate (count_list (filter (\<lambda>s. s \<noteq> self) (sessions r)) a) m"]
    by (simp add: runs_def proxyMessageToPeers_def proxy_loop_result send_result_def reached_all[OF ok])
qed

lemma runs_reflect:
  assumes "all_send_ok r self"
  shows "runs (reflectMessageToPeers m) r (\<lambda>a. replicate (count_list (sessions r) a) m)"
proof -
  have ok: "list_all (\<lambda>a. \<not> sendThrows (heap r a)) (sessions r)"
    using assms by (simp add: all_send_ok_def)
  show ?thesis
    by (simp add: runs_def reflectMessageToPeers_def reflect_loop_result send_result_def reached_all[OF ok]
        sends_deliver)
qed

lemma runs_ok: "runs ok r (\<lambda>a. [])"
  by (simp add: runs_def ok_def sends_refl)

lemma runs_emitUpdate:
  assumes "emit_error r u = None"
  shows "runs (emitUpdate u) r (\<lambda>a. [])"
  using assms by (simp add: runs_def emitUpdate_error emitUpdate_sends)

lemma runs_data_branch:
  assumes ok: "all_send_ok r self"
    and res: "data_result env b method r = (rollback, update)"
    and emit: "\<And>u. update = Some u \<Longrightarrow> emit_error r u = None"
  shows "runs (data_branch env self b method) r
           (\<lambda>a. if a = self then rollback_frames env rollback
                 else replicate (count_list (sessions r) a
                        * (if dataHandlesMethod env method \<and> update \<noteq> None then 1 else 0)) (Binary b))"
proof (cases "dataHandlesMethod env method")
  case False
  then have "rollback = None" using res by (simp add: data_result_def)
  then have "(\<lambda>a. if a = self then rollback_frames env rollback
                 else replicate (count_list (sessions r) a
                        * (if dataHandlesMethod env method \<and> update \<noteq> None then 1 else 0)) (Binary b))
      = (\<lambda>a. [])"
    using False by (auto simp: fun_eq_iff rollback_frames_def)
  then show ?thesis using False
    by (simp add: data_branch_def runs_def sends_refl)
next
  case True
  obtain dc where app: "applyUint8Array env b (dataClient r) = ((rollback, update), dc)"
    using res True by (cases "applyUint8Array env b (dataClient r)") (simp add: data_result_def)
  let ?r0 = "r\<lparr>dataClient := dc\<rparr>"
  let ?f = "case rollback of Some rb \<Rightarrow> respondToSelf self (Binary (serializeMessage env rb)) | None \<Rightarrow> ok"
  let ?g = "case update of Some u \<Rightarrow> and_then (emitUpdate u) (proxyMessageToPeers self (Binary b)) | None \<Rightarrow> ok"
  have s0: "sends r ?r0 (\<lambda>a. [])" by (simp add: sends_def shape_def)
  have ok0: "all_send_ok ?r0 self" using ok all_send_ok_sends[OF s0] by simp
  have f: "runs ?f ?r0 (\<lambda>a. if a = self then rollback_frames env rollback else [])"
  proof (cases rollback)
    case None
    then show ?thesis using runs_ok[of ?r0] by (simp add: rollback_frames_def cong del: if_weak_cong)
  next
    case (Some rb)
    then show ?thesis using runs_respond[OF ok0, of "Binary (serializeMessage env rb)"]
      by (simp add: rollback_frames_def cong del: if_weak_cong)
  qed
  let ?r1 = "snd (?f ?r0)"
  have s1: "sends r ?r1 (\<lambda>a. if a = self then rollback_frames env rollback else [])"
    using sends_trans[OF s0, of ?r1] f by (simp add: runs_def)
  have ok1: "all_send_ok ?r1 self" using ok all_send_ok_sends[OF s1] by simp
  have g: "runs ?g ?r1 (\<lambda>a. if a = self then [] else replicate (count_list (sessions r) a * (if update \<noteq> None then 1 else 0)) (Binary b))"
  proof (cases update)
    case None
    then show ?thesis using runs_ok[of ?r1] by (simp cong del: if_weak_cong)
  next
    case (Some u)
    have e1: "runs (emitUpdate u) ?r1 (\<lambda>a. [])"
      using emit[OF Some] emit_error_sends[OF s1, of u] by (simp add: runs_emitUpdate)
    let ?r2 = "snd (emitUpdate u ?r1)"
    have s2: "sends ?r1 ?r2 (\<lambda>a. [])" using e1 by (simp add: runs_def)
    have ok2: "all_send_ok ?r2 self" using ok1 all_send_ok_sends[OF s2] by simp
    have ses: "sessions ?r2 = sessions r" using sessions_sends[OF s2] sessions_sends[OF s1] by simp
    show ?thesis
      using runs_and_then[OF e1 runs_proxy[OF ok2, of "Binary b"]] Some ses
      by (simp cong del: if_weak_cong)
  qed
  have "runs (and_then ?f ?g) ?r0
          (\<lambda>a. (if a = self then rollback_frames env rollback else [])
               @ (if a = self then [] else replicate (count_list (sessions r) a * (if update \<noteq> None then 1 else 0)) (Binary b)))"
    by (rule runs_and_then[OF f g])
  then have r0: "runs (and_then ?f ?g) ?r0
          (\<lambda>a. if a = self then rollback_frames env rollback
                 else replicate (count_list (sessions r) a * (if update \<noteq> None then 1 else 0)) (Binary b))"
    by (rule runs_cong) (simp add: fun_eq_iff)
  have "data_branch env self b method r = and_then ?f ?g ?r0"
    using True app by (simp add: data_branch_def)
  then show ?thesis using r0 s0 True
    by (simp add: runs_def sends_def cong del: if_weak_cong)
qed

lemma runs_chain:
  assumes "runs f r g" and "\<And>r1. sends r r1 g \<Longrightarrow> runs h r1 k"
  shows "runs (and_then f h) r (\<lambda>a. g a @ k a)"
  using assms(1) assms(2)[of "snd (f r)"] runs_and_then[of f r g h k]
  by (simp add: runs_def)

lemma runs_crdt_branch:
  assumes "all_send_ok r self" and "sessions r = ss"
  shows "runs (crdt_branch env self b method args) r
           (\<lambda>a. if a = self then []
                 else replicate (count_list ss a * (if crdtHandlesMethod env method then 1 else 0)) (Binary b))"
proof (cases "crdtHandlesMethod env method")
  case False
  then show ?thesis by (simp add: crdt_branch_def runs_def sends_refl cong del: if_weak_cong)
next
  case True
  let ?r0 = "r\<lparr>crdtClient := crdtClient r @ [case args of [] \<Rightarrow> None | x # _ \<Rightarrow> Some x]\<rparr>"
  have s0: "sends r ?r0 (\<lambda>a. [])" by (simp add: sends_def shape_def)
  have ok0: "all_send_ok ?r0 self" using assms(1) all_send_ok_sends[OF s0] by simp
  have "runs (proxyMessageToPeers self (Binary b)) ?r0
          (\<lambda>a. if a = self then [] else replicate (count_list ss a) (Binary b))"
    using runs_proxy[OF ok0, of "Binary b"] assms(2) by (simp cong del: if_weak_cong)
  then show ?thesis using True s0
    by (simp add: crdt_branch_def runs_def sends_def cong del: if_weak_cong)
qed

lemma runs_lock_branch: "runs (lock_branch env self method args) r (\<lambda>a. [])"
  by (simp add: lock_branch_def runs_def sends_def shape_def)

lemma runs_irc_branch:
  assumes "all_send_ok r self" and "sessions r = ss"
  shows "runs (irc_branch env b method) r
           (\<lambda>a. replicate (count_list ss a * (if ircHandlesMethod env method then 1 else 0)) (Binary b))"
  using runs_reflect[OF assms(1), of "Binary b"] assms(2)
  by (simp add: irc_branch_def runs_def sends_refl)

lemma runs_av_branch:
  assumes "all_send_ok r self" and "sessions r = ss"
  shows "runs (av_branch env self b method) r
           (\<lambda>a. if a = self then []
                 else replicate (count_list ss a
                   * (if audioHandlesMethod env method \<or> videoHandlesMethod env method then 1 else 0)) (Binary b))"
  using runs_proxy[OF assms(1), of "Binary b"] assms(2)
  by (simp add: av_branch_def runs_def sends_refl cong del: if_weak_cong)

lemma handleBinaryMessage_routes:
  assumes parse: "parseUpdateObject env b = Inr (method, args)"
    and ok: "all_send_ok r self"
    and res: "data_result env b method r = (rollback, update)"
    and emit: "\<And>u. update = Some u \<Longrightarrow> emit_error r u = None"
  shows "runs (handleBinaryMessage env self b) r (routed env self b method (rollback, update) r)"
proof -
  let ?ss = "sessions r"
  let ?D = "\<lambda>a. if a = self then rollback_frames env rollback
                 else replicate (count_list ?ss a
                        * (if dataHandlesMethod env method \<and> update \<noteq> None then 1 else 0)) (Binary b)"
  let ?C = "\<lambda>a. if a = self then []
                 else replicate (count_list ?ss a * (if crdtHandlesMethod env method then 1 else 0)) (Binary b)"
  let ?L = "\<lambda>a::nat. [] :: wire list"
  let ?I = "\<lambda>a. replicate (count_list ?ss a * (if ircHandlesMethod env method then 1 else 0)) (Binary b)"
  let ?V = "\<lambda>a. if a = self then []
                 else replicate (count_list ?ss a
                   * (if audioHandlesMethod env method \<or> videoHandlesMethod env method then 1 else 0)) (Binary b)"
  have next_ok: "all_send_ok r1 self \<and> sessions r1 = ?ss" if "sends r r1 g" for r1 g
    using that ok all_send_ok_sends[OF that] sessions_sends[OF that] by simp
  have iv: "runs (and_then (irc_branch env b method) (av_branch env self b method)) r1 (\<lambda>a. ?I a @ ?V a)"
    if "all_send_ok r1 self" "sessions r1 = ?ss" for r1
  proof (rule runs_chain)
    show "runs (irc_branch env b method) r1 ?I" using that by (rule runs_irc_branch)
    fix r2 assume s: "sends r1 r2 ?I"
    have "all_send_ok r2 self" "sessions r2 = ?ss"
      using that all_send_ok_sends[OF s] sessions_sends[OF s] by simp_all
    then show "runs (av_branch env self b method) r2 ?V" by (rule runs_av_branch)
  qed
  have liv: "runs (and_then (lock_branch env self method args)
                     (and_then (irc_branch env b method) (av_branch env self b method))) r1
               (\<lambda>a. ?L a @ ?I a @ ?V a)"
    if "all_send_ok r1 self" "sessions r1 = ?ss" for r1
  proof (rule runs_chain)
    show "runs (lock_branch env self method args) r1 ?L" by (rule runs_lock_branch)
    fix r2 assume s: "sends r1 r2 ?L"
    have "all_send_ok r2 self" "sessions r2 = ?ss"
      using that all_send_ok_sends[OF s] sessions_sends[OF s] by simp_all
    then show "runs (and_then (irc_branch env b method) (av_branch env self b method)) r2 (\<lambda>a. ?I a @ ?V a)"
      by (rule iv)
  qed
  have cliv: "runs (and_then (crdt_branch env self b method args)
                     (and_then (lock_branch env self method args)
                     (and_then (irc_branch env b method) (av_branch env self b method)))) r1
               (\<lambda>a. ?C a @ ?L a @ ?I a @ ?V a)"
    if "all_send_ok r1 self" "sessions r1 = ?ss" for r1
  proof (rule runs_chain)
    show "runs (crdt_branch env self b method args) r1 ?C" using that by (rule runs_crdt_branch)
    fix r2 assume s: "sends r1 r2 ?C"
    have "all_send_ok r2 self" "sessions r2 = ?ss"
      using that all_send_ok_sends[OF s] sessions_sends[OF s] by simp_all
    then show "runs (and_then (lock_branch env self method args)
                     (and_then (irc_branch env b method) (av_branch env self b method))) r2
               (\<lambda>a. ?L a @ ?I a @ ?V a)"
      by (rule liv)
  qed
  have all: "runs (and_then (data_branch env self b method)
                    (and_then (crdt_branch env self b method args)
                    (and_then (lock_branch env self method args)
                    (and_then (irc_branch env b method) (av_branch env self b method))))) r
               (\<lambda>a. ?D a @ ?C a @ ?L a @ ?I a @ ?V a)"
  proof (rule runs_chain)
    show "runs (data_branch env self b method) r ?D" using ok res emit by (rule runs_data_branch)
    fix r2 assume s: "sends r r2 ?D"
    have "all_send_ok r2 self" "sessions r2 = ?ss" using next_ok[OF s] by simp_all
    then show "runs (and_then (crdt_branch env self b method args)
                     (and_then (lock_branch env self method args)
                     (and_then (irc_branch env b method) (av_branch env self b method)))) r2
               (\<lambda>a. ?C a @ ?L a @ ?I a @ ?V a)"
      by (rule cliv)
  qed
  have eq: "(\<lambda>a. ?D a @ ?C a @ ?L a @ ?I a @ ?V a) = routed env self b method (rollback, update) r"
    by (auto simp: fun_eq_iff routed_def proxy_classes_def reflect_classes_def
        replicate_add[symmetric] add_mult_distrib2)
  have "handleBinaryMessage env self b = and_then (data_branch env self b method)
                    (and_then (crdt_branch env self b method args)
                    (and_then (lock_branch env self method args)
                    (and_then (irc_branch env b method) (av_branch env self b method))))"
    using parse by (simp add: handleBinaryMessage_def fun_eq_iff)
  then show ?thesis using all eq by (simp cong del: if_weak_cong)
qed

lemma received_sends: "sends r r' f \<Longrightarrow> received r r' a = f a"
  by (simp add: sends_def received_def)

lemma dataClient_send_result: "dataClient (snd (send_result r ts m)) = dataClient r"
  by (simp add: send_result_def deliver_simps)

lemma dataClient_proxy: "dataClient (snd (proxyMessageToPeers self m r)) = dataClient r"
  by (simp add: proxyMessageToPeers_def proxy_loop_result dataClient_send_result)


lemma dataClient_respond: "dataClient (snd (respondToSelf self m r)) = dataClient r"
  by (simp add: respondToSelf_def ws_send_result dataClient_send_result)










lemma respond_result:
  assumes "\<not> sendThrows (heap r self)"
  shows "runs (respondToSelf self m) r (\<lambda>a. if a = self then [m] else [])"
  using assms by (simp add: runs_def respondToSelf_def ws_send_eq sends_deliver)

lemma data_branch_to_emit:
  assumes data: "dataHandlesMethod env method"
    and app: "applyUint8Array env b (dataClient r) = ((rollback, Some u), dc)"
    and ok: "\<not> sendThrows (heap r self)"
  obtains r1 where "sends r r1 (\<lambda>a. if a = self then rollback_frames env rollback else [])"
    and "dataClient r1 = dc"
    and "data_branch env self b method r = and_then (emitUpdate u) (proxyMessageToPeers self (Binary b)) r1"
proof -
  let ?r0 = "r\<lparr>dataClient := dc\<rparr>"
  let ?f = "case rollback of Some rb \<Rightarrow> respondToSelf self (Binary (serializeMessage env rb)) | None \<Rightarrow> ok"
  have s0: "sends r ?r0 (\<lambda>a. [])" by (simp add: sends_def shape_def)
  have ok0: "\<not> sendThrows (heap ?r0 self)" using ok by simp
  have f: "runs ?f ?r0 (\<lambda>a. if a = self then rollback_frames env rollback else [])"
  proof (cases rollback)
    case None
    then show ?thesis using runs_ok[of ?r0] by (simp add: rollback_frames_def cong del: if_weak_cong)
  next
    case (Some rb)
    then show ?thesis using respond_result[OF ok0, of "Binary (serializeMessage env rb)"]
      by (simp add: rollback_frames_def cong del: if_weak_cong)
  qed
  have d: "dataClient (snd (?f ?r0)) = dc"
    by (cases rollback) (simp_all add: ok_def dataClient_respond)
  have s1: "sends r (snd (?f ?r0)) (\<lambda>a. if a = self then rollback_frames env rollback else [])"
    using sends_trans[OF s0, of "snd (?f ?r0)"] f by (simp add: runs_def)
  have "fst (?f ?r0) = None" using f by (simp add: runs_def)
  then have "data_branch env self b method r
      = and_then (emitUpdate u) (proxyMessageToPeers self (Binary b)) (snd (?f ?r0))"
    using data app by (cases "?f ?r0") (simp add: data_branch_def and_then_def)
  then show ?thesis using that[OF s1 d] by simp
qed


lemma data_branch_throws:
  assumes data: "dataHandlesMethod env method"
    and app: "applyUint8Array env b (dataClient r) = ((rollback, Some u), dc)"
    and ok: "\<not> sendThrows (heap r self)"
    and err: "emit_error r u = Some e"
  shows "fst (data_branch env self b method r) = Some e
       \<and> sends r (snd (data_branch env self b method r)) (\<lambda>a. if a = self then rollback_frames env rollback else [])"
proof -
  obtain r1 where 1: "sends r r1 (\<lambda>a. if a = self then rollback_frames env rollback else [])"
    and 2: "data_branch env self b method r = and_then (emitUpdate u) (proxyMessageToPeers self (Binary b)) r1"
    using data_branch_to_emit[OF data app ok] by blast
  have e1: "fst (emitUpdate u r1) = Some e"
    using err emit_error_sends[OF 1, of u] by (simp add: emitUpdate_error)
  have s: "sends r1 (snd (emitUpdate u r1)) (\<lambda>a. [])" by (rule emitUpdate_sends)
  have "and_then (emitUpdate u) (proxyMessageToPeers self (Binary b)) r1 = (Some e, snd (emitUpdate u r1))"
    using e1 by (cases "emitUpdate u r1") (simp add: and_then_def)
  then show ?thesis using 2 sends_trans[OF 1 s] by simp
qed



text \<open>
  Claim C6, as amended. Provided no \<^verbatim>\<open>send\<close> throws and the dead-hand listeners accept
  the update's keys: a frame of an IRC method is delivered to every session of the list,
  the originator included; a frame of an audio or video method, and a frame of a data method
  for which the data client yields an update, is delivered to every session of the list
  other than the originator; the originator itself is sent the original bytes only by the
  IRC class (without it, it is sent the rollback, if any, and nothing else); and a data
  frame for which the data client yields no update reaches no other session, unless
  another class routes it.
\<close>

theorem frame_routing_by_class:
  assumes parse: "parseUpdateObject env b = Inr (method, args)"
    and res: "data_result env b method r = (rollback, update)"
    and ok: "all_send_ok r self"
    and emit: "\<forall>u. update = Some u \<longrightarrow> emit_error r u = None"
  shows "(ircHandlesMethod env method \<longrightarrow>
            (\<forall>a\<in>set (sessions r). Binary b \<in> set (received r (snd (handleBinaryMessage env self b r)) a)))
     \<and> (audioHandlesMethod env method \<or> videoHandlesMethod env method
          \<or> (dataHandlesMethod env method \<and> update \<noteq> None) \<longrightarrow>
            (\<forall>p\<in>set (sessions r). p \<noteq> self \<longrightarrow>
               Binary b \<in> set (received r (snd (handleBinaryMessage env self b r)) p)))
     \<and> (\<not> ircHandlesMethod env method \<longrightarrow>
            received r (snd (handleBinaryMessage env self b r)) self = rollback_frames env rollback)
     \<and> (update = None \<and> \<not> crdtHandlesMethod env method \<and> \<not> ircHandlesMethod env method
          \<and> \<not> audioHandlesMethod env method \<and> \<not> videoHandlesMethod env method \<longrightarrow>
            (\<forall>p. p \<noteq> self \<longrightarrow> received r (snd (handleBinaryMessage env self b r)) p = []))"
proof -
  have "runs (handleBinaryMessage env self b) r (routed env self b method (rollback, update) r)"
    using parse ok res emit by (intro handleBinaryMessage_routes) simp_all
  then have s: "sends r (snd (handleBinaryMessage env self b r)) (routed env self b method (rollback, update) r)"
    by (simp add: runs_def)
  have rec: "received r (snd (handleBinaryMessage env self b r)) a = routed env self b method (rollback, update) r a" for a
    by (rule received_sends[OF s])
  have pos: "a \<in> set (sessions r) \<Longrightarrow> 0 < count_list (sessions r) a" for a
    using count_list_0_iff[of "sessions r" a] by simp
  show ?thesis
  proof (intro conjI impI ballI allI)
    fix a assume "ircHandlesMethod env method" "a \<in> set (sessions r)"
    then show "Binary b \<in> set (received r (snd (handleBinaryMessage env self b r)) a)"
      using pos[of a] by (auto simp: rec routed_def reflect_classes_def)
  next
    fix p assume "audioHandlesMethod env method \<or> videoHandlesMethod env method
          \<or> (dataHandlesMethod env method \<and> update \<noteq> None)" "p \<in> set (sessions r)" "p \<noteq> self"
    then show "Binary b \<in> set (received r (snd (handleBinaryMessage env self b r)) p)"
      using pos[of p] by (auto simp: rec routed_def proxy_classes_def)
  next
    assume "\<not> ircHandlesMethod env method"
    then show "received r (snd (handleBinaryMessage env self b r)) self = rollback_frames env rollback"
      by (simp add: rec routed_def reflect_classes_def)
  next
    fix p assume "update = None \<and> \<not> crdtHandlesMethod env method \<and> \<not> ircHandlesMethod env method
          \<and> \<not> audioHandlesMethod env method \<and> \<not> videoHandlesMethod env method" "p \<noteq> self"
    then show "received r (snd (handleBinaryMessage env self b r)) p = []"
      by (simp add: rec routed_def proxy_classes_def reflect_classes_def)
  qed
qed

theorem frame_routing_by_class_witness:
  "parseUpdateObject demo_env [5, 9] = Inr (5, [ArgBytes [9]])
   \<and> data_result demo_env [5, 9] 5 room_ad = (None, None)
   \<and> all_send_ok room_ad 1
   \<and> ircHandlesMethod demo_env 5
   \<and> sessions room_ad = [1, 4]
   \<and> Binary [5, 9] \<in> set (received room_ad (snd (handleBinaryMessage demo_env 1 [5, 9] room_ad)) 1)
   \<and> Binary [5, 9] \<in> set (received room_ad (snd (handleBinaryMessage demo_env 1 [5, 9] room_ad)) 4)"
proof -
  have p: "parseUpdateObject demo_env [5, 9] = Inr (5, [ArgBytes [9]])" by code_simp
  have d: "data_result demo_env [5, 9] 5 room_ad = (None, None)" by code_simp
  have ok: "all_send_ok room_ad 1" by code_simp
  have i: "ircHandlesMethod demo_env 5" by code_simp
  have s: "sessions room_ad = [1, 4]" by code_simp
  have e: "\<forall>u. (None :: message_event option) = Some u \<longrightarrow> emit_error room_ad u = None" by simp
  from frame_routing_by_class[where self=1, OF p d ok e]
  show ?thesis using p d ok i s by simp
qed

text \<open>
  Claim C6 as stated fails: session 1 sends a frame of a data method that the data client
  answers with a rollback and no update; session 4 receives nothing.
\<close>

theorem data_frame_without_update_counterexample:
  "parseUpdateObject demo_env [20, 0] = Inr (20, [ArgBytes [0]])
   \<and> dataHandlesMethod demo_env 20
   \<and> sessions room_ad = [1, 4]
   \<and> all_send_ok room_ad 1
   \<and> fst (handleBinaryMessage demo_env 1 [20, 0] room_ad) = None
   \<and> sent (heap (snd (handleBinaryMessage demo_env 1 [20, 0] room_ad)) 4) = sent (heap room_ad 4)"
  by code_simp

lemma text_frame_reported:
  assumes live: "\<not> quit (heap r self)" and ok: "\<not> sendThrows (heap r self)"
  shows "session_onmessage env self (TextFrame t) r
           = deliver (\<lambda>a. if a = self then [ErrorJson (Error ''got non-binary message'')] else []) r"
  using assms by (simp add: session_onmessage_def ws_send_eq)

lemma malformed_key_reported:
  assumes live: "\<not> quit (heap r self)" and ok: "\<not> sendThrows (heap r self)"
    and parse: "parseUpdateObject env b = Inr (method, args)"
    and data: "dataHandlesMethod env method"
    and app: "applyUint8Array env b (dataClient r) = ((rollback, Some (Deadhand keys deadHand)), dc)"
    and owner: "deadHand \<in> set (map (\<lambda>l. playerId (heap r l)) (dataListeners r))"
    and bad: "find (\<lambda>k. match_deadhand_key k = None) keys = Some key"
  shows "sends r (session_onmessage env self (ArrayBuffer b) r)
           (\<lambda>a. if a = self
                 then rollback_frames env rollback @ [ErrorJson (Error (''invalid deadhand key: '' @ key))]
                 else [])"
proof -
  define e where "e = Error (''invalid deadhand key: '' @ key)"
  have err: "emit_error r (Deadhand keys deadHand) = Some e"
    using owner bad by (simp add: emit_error_def key_error_def e_def)
  let ?r1 = "snd (data_branch env self b method r)"
  have d: "fst (data_branch env self b method r) = Some e"
    and s1: "sends r ?r1 (\<lambda>a. if a = self then rollback_frames env rollback else [])"
    using data_branch_throws[OF data app ok err] by simp_all
  have h: "handleBinaryMessage env self b r = (Some e, ?r1)"
    using parse d by (cases "data_branch env self b method r") (simp add: handleBinaryMessage_def and_then_def)
  have sh: "shape ?r1 = shape r" using s1 by (simp add: sends_def)
  have ok1: "\<not> sendThrows (heap ?r1 self)" using ok shape_eqD(4)[OF sh, of self] by simp
  have "session_onmessage env self (ArrayBuffer b) r
      = deliver (\<lambda>a. if a = self then [ErrorJson e] else []) ?r1"
    using live h ok1 by (simp add: session_onmessage_def ws_send_eq)
  moreover have "sends r (deliver (\<lambda>a. if a = self then [ErrorJson e] else []) ?r1)
      (\<lambda>a. (if a = self then rollback_frames env rollback else []) @ (if a = self then [ErrorJson e] else []))"
    by (rule sends_trans[OF s1 sends_deliver])
  moreover have "(\<lambda>a. (if a = self then rollback_frames env rollback else []) @ (if a = self then [ErrorJson e] else []))
      = (\<lambda>a. if a = self then rollback_frames env rollback @ [ErrorJson e] else [])"
    by (auto simp: fun_eq_iff)
  ultimately show ?thesis unfolding e_def by simp
qed

text \<open>
  Claim C7, as amended. For a session that has not quit and whose \<^verbatim>\<open>send\<close> works: a
  text frame changes nothing in the room but that the error message is appended to what the
  originator's socket has been sent. A data frame whose update is a \<^verbatim>\<open>deadhand\<close> event
  with a key matching neither \<^verbatim>\<open><arrayId>.<arrayIndexId>\<close> nor \<^verbatim>\<open><arrayId>\<close>, addressed
  to the player id of a connection whose dead-hand listener is registered, makes that
  listener throw: the originator is sent the rollback (if any) and then the error message
  naming the first such key, no other socket is sent anything, and the session list, the
  originator's quit flag and its message listeners are as they were. (A listener looks at
  the keys only of an event addressed to its own player id.)
\<close>

theorem protocol_violation_reported_to_sender:
  assumes live: "\<not> quit (heap r self)" and ok: "\<not> sendThrows (heap r self)"
  shows "session_onmessage env self (TextFrame t) r
           = deliver (\<lambda>a. if a = self then [ErrorJson (Error ''got non-binary message'')] else []) r
     \<and> (parseUpdateObject env b = Inr (method, args) \<and> dataHandlesMethod env method
         \<and> applyUint8Array env b (dataClient r) = ((rollback, Some (Deadhand keys deadHand)), dc)
         \<and> deadHand \<in> set (map (\<lambda>l. playerId (heap r l)) (dataListeners r))
         \<and> find (\<lambda>k. match_deadhand_key k = None) keys = Some key \<longrightarrow>
        received r (session_onmessage env self (ArrayBuffer b) r) self
           = rollback_frames env rollback @ [ErrorJson (Error (''invalid deadhand key: '' @ key))]
        \<and> (\<forall>p. p \<noteq> self \<longrightarrow> sent (heap (session_onmessage env self (ArrayBuffer b) r) p) = sent (heap r p))
        \<and> sessions (session_onmessage env self (ArrayBuffer b) r) = sessions r
        \<and> \<not> quit (heap (session_onmessage env self (ArrayBuffer b) r) self)
        \<and> messageListeners (heap (session_onmessage env self (ArrayBuffer b) r) self)
            = messageListeners (heap r self))"
proof (intro conjI impI)
  show "session_onmessage env self (TextFrame t) r
           = deliver (\<lambda>a. if a = self then [ErrorJson (Error ''got non-binary message'')] else []) r"
    using live ok by (rule text_frame_reported)
next
  assume a: "parseUpdateObject env b = Inr (method, args) \<and> dataHandlesMethod env method
         \<and> applyUint8Array env b (dataClient r) = ((rollback, Some (Deadhand keys deadHand)), dc)
         \<and> deadHand \<in> set (map (\<lambda>l. playerId (heap r l)) (dataListeners r))
         \<and> find (\<lambda>k. match_deadhand_key k = None) keys = Some key"
  let ?r' = "session_onmessage env self (ArrayBuffer b) r"
  have s: "sends r ?r'
           (\<lambda>a. if a = self
                 then rollback_frames env rollback @ [ErrorJson (Error (''invalid deadhand key: '' @ key))]
                 else [])"
    by (rule malformed_key_reported[OF live ok conjunct1[OF a] conjunct1[OF conjunct2[OF a]]
          conjunct1[OF conjunct2[OF conjunct2[OF a]]] conjunct1[OF conjunct2[OF conjunct2[OF conjunct2[OF a]]]]
          conjunct2[OF conjunct2[OF conjunct2[OF conjunct2[OF a]]]]])
  have sh: "shape ?r' = shape r" by (rule shape_session_onmessage)
  show "received r ?r' self = rollback_frames env rollback @ [ErrorJson (Error (''invalid deadhand key: '' @ key))]"
    using received_sends[OF s, of self] by simp
  show "\<forall>p. p \<noteq> self \<longrightarrow> sent (heap ?r' p) = sent (heap r p)"
    using s by (simp add: sends_def)
  show "sessions ?r' = sessions r" by (rule shape_eqD(1)[OF sh])
  show "\<not> quit (heap ?r' self)" using live shape_eqD(2)[OF sh, of self] by simp
  show "messageListeners (heap ?r' self) = messageListeners (heap r self)" by (rule shape_eqD(5)[OF sh])
qed

theorem protocol_violation_reported_to_sender_witness:
  "\<not> quit (heap room_ad 4) \<and> \<not> sendThrows (heap room_ad 4)
   \<and> sent (heap (session_onmessage demo_env 4 (TextFrame ''hello'') room_ad) 4)
       = sent (heap room_ad 4) @ [ErrorJson (Error ''got non-binary message'')]
   \<and> sent (heap (session_onmessage demo_env 4 (TextFrame ''hello'') room_ad) 1) = sent (heap room_ad 1)
   \<and> sessions (session_onmessage demo_env 4 (TextFrame ''hello'') room_ad) = sessions room_ad
   \<and> playerId (heap room_ad 1) = Some ''a''
   \<and> received room_ad (session_onmessage demo_env 4 (ArrayBuffer [20, 2]) room_ad) 4
       = [ErrorJson (Error ''invalid deadhand key: bad..key'')]
   \<and> sent (heap (session_onmessage demo_env 4 (ArrayBuffer [20, 2]) room_ad) 1) = sent (heap room_ad 1)
   \<and> sessions (session_onmessage demo_env 4 (ArrayBuffer [20, 2]) room_ad) = sessions room_ad"
proof -
  have live: "\<not> quit (heap room_ad 4)" and ok: "\<not> sendThrows (heap room_ad 4)" by code_simp+
  have p: "parseUpdateObject demo_env [20, 2] = Inr (20, [ArgBytes [2]])"
    and d: "dataHandlesMethod demo_env 20" by code_simp+
  have a: "applyUint8Array demo_env [20, 2] (dataClient room_ad)
      = ((None, Some (Deadhand [''worldApps.x1'', ''bad..key''] (Some ''a''))), dataClient room_ad)"
    by (simp add: demo_env_def)
  have l: "dataListeners room_ad = [1, 4]" "playerId (heap room_ad 1) = Some ''a''" by code_simp+
  have o: "Some ''a'' \<in> set (map (\<lambda>l. playerId (heap room_ad l)) (dataListeners room_ad))"
    using l by simp
  have k: "find (\<lambda>k. match_deadhand_key k = None) [''worldApps.x1'', ''bad..key''] = Some ''bad..key''"
    by code_simp
  note t = protocol_violation_reported_to_sender[OF live ok, of demo_env "''hello''" "[20, 2]" 20 "[ArgBytes [2]]"
      None "[''worldApps.x1'', ''bad..key'']" "Some ''a''" "dataClient room_ad" "''bad..key''"]
  show ?thesis using t live ok p d a o k l
    by (simp add: deliver_simps rollback_frames_def)
qed

subsection \<open>C8 and C10: dead-hand cleanup, joining without a player id\<close>

lemma peers_send_ok_sends: "sends r r' f \<Longrightarrow> peers_send_ok r' self = peers_send_ok r self"
proof -
  assume "sends r r' f"
  then have sh: "shape r' = shape r" by (simp add: sends_def)
  have "(\<lambda>a. \<not> sendThrows (heap r' a)) = (\<lambda>a. \<not> sendThrows (heap r a))"
    using shape_eqD(4)[OF sh] by (simp add: fun_eq_iff)
  then show ?thesis using shape_eqD(1)[OF sh] by (simp add: peers_send_ok_def)
qed

lemma runs_proxy_peers:
  assumes "peers_send_ok r self"
  shows "runs (proxyMessageToPeers self m) r
           (\<lambda>a. if a = self then [] else replicate (count_list (sessions r) a) m)"
proof -
  have ok: "list_all (\<lambda>a. \<not> sendThrows (heap r a)) (filter (\<lambda>s. s \<noteq> self) (sessions r))"
    using assms by (simp add: peers_send_ok_def)
  have "(\<lambda>a. replicate (count_list (filter (\<lambda>s. s \<noteq> self) (sessions r)) a) m)
      = (\<lambda>a. if a = self then [] else replicate (count_list (sessions r) a) m)"
    by (simp add: fun_eq_iff count_list_filter)
  then show ?thesis
    using sends_deliver[of r "\<lambda>a. replicate (count_list (filter (\<lambda>s. s \<noteq> self) (sessions r)) a) m"]
    by (simp add: runs_def proxyMessageToPeers_def proxy_loop_result send_result_def reached_all[OF ok])
qed

lemma runs_remove_maps:
  assumes "peers_send_ok r self" and "sessions r = ss"
  shows "runs (remove_maps env self arrayId ks) r
           (\<lambda>a. if a = self then [] else remove_frames env (count_list ss a) (map (Pair arrayId) ks))
       \<and> dataClient (snd (remove_maps env self arrayId ks r)) = dataClient r"
  using assms
proof (induction ks arbitrary: r)
  case Nil
  show ?case by (simp add: runs_def sends_refl remove_frames_def cong del: if_weak_cong)
next
  case (Cons k ks)
  let ?m = "Binary (serializeMessage env (RemoveUpdate arrayId k))"
  let ?r1 = "snd (proxyMessageToPeers self ?m r)"
  have p: "runs (proxyMessageToPeers self ?m) r (\<lambda>a. if a = self then [] else replicate (count_list ss a) ?m)"
    using runs_proxy_peers[OF Cons.prems(1), of ?m] Cons.prems(2) by (simp cong del: if_weak_cong)
  then have s1: "sends r ?r1 (\<lambda>a. if a = self then [] else replicate (count_list ss a) ?m)"
    and n1: "fst (proxyMessageToPeers self ?m r) = None" by (simp_all add: runs_def)
  have ok1: "peers_send_ok ?r1 self" using Cons.prems(1) peers_send_ok_sends[OF s1] by simp
  have ss1: "sessions ?r1 = ss" using sessions_sends[OF s1] Cons.prems(2) by simp
  note ih = Cons.IH[OF ok1 ss1]
  have eq: "remove_maps env self arrayId (k # ks) r = remove_maps env self arrayId ks ?r1"
    using n1 by (cases "proxyMessageToPeers self ?m r") simp
  have "sends r (snd (remove_maps env self arrayId ks ?r1))
          (\<lambda>a. (if a = self then [] else replicate (count_list ss a) ?m)
               @ (if a = self then [] else remove_frames env (count_list ss a) (map (Pair arrayId) ks)))"
    using sends_trans[OF s1] ih by (simp add: runs_def)
  moreover have "(\<lambda>a. (if a = self then [] else replicate (count_list ss a) ?m)
               @ (if a = self then [] else remove_frames env (count_list ss a) (map (Pair arrayId) ks)))
      = (\<lambda>a. if a = self then [] else remove_frames env (count_list ss a) (map (Pair arrayId) (k # ks)))"
    by (auto simp: fun_eq_iff remove_frames_def)
  ultimately show ?case using eq ih dataClient_proxy[of self ?m r]
    by (simp add: runs_def)
qed

lemma remove_frames_append:
  "remove_frames env n (xs @ ys) = remove_frames env n xs @ remove_frames env n ys"
  by (simp add: remove_frames_def)

lemma runs_deadHands_loop:
  assumes "peers_send_ok r self" and "sessions r = ss" and "dataClient r = dc"
  shows "runs (deadHands_loop env self entries) r
           (\<lambda>a. if a = self then [] else remove_frames env (count_list ss a) (dead_hand_removes dc entries))
       \<and> dataClient (snd (deadHands_loop env self entries r)) = dc"
  using assms
proof (induction entries arbitrary: r)
  case Nil
  show ?case using Nil.prems(3)
    by (simp add: runs_def sends_refl remove_frames_def dead_hand_removes_def cong del: if_weak_cong)
next
  case (Cons entry entries)
  obtain key arrayId idx where entry: "entry = (key, arrayId, idx)" by (cases entry) auto
  let ?step = "case idx of
              Some i \<Rightarrow>
                if hasKey (dataClient r) arrayId i
                then proxyMessageToPeers self (Binary (serializeMessage env (RemoveUpdate arrayId i))) r
                else (None, r)
            | None \<Rightarrow> remove_maps env self arrayId (getKeys (dataClient r) arrayId) r"
  let ?these = "dead_hand_removes dc [entry]"
  have step: "fst ?step = None
      \<and> sends r (snd ?step) (\<lambda>a. if a = self then [] else remove_frames env (count_list ss a) ?these)
      \<and> dataClient (snd ?step) = dc"
  proof (cases idx)
    case None
    have "?these = map (Pair arrayId) (getKeys (dataClient r) arrayId)"
      using None entry Cons.prems(3) by (simp add: dead_hand_removes_def)
    then show ?thesis
      using runs_remove_maps[OF Cons.prems(1,2), of env arrayId "getKeys (dataClient r) arrayId"] Cons.prems(3) None
      by (simp add: runs_def cong del: if_weak_cong)
  next
    case (Some i)
    show ?thesis
    proof (cases "hasKey (dataClient r) arrayId i")
      case True
      have "(\<lambda>a. if a = self then [] else replicate (count_list (sessions r) a)
                (Binary (serializeMessage env (RemoveUpdate arrayId i))))
          = (\<lambda>a. if a = self then [] else remove_frames env (count_list ss a) ?these)"
        using True Some entry Cons.prems(2,3)
        by (auto simp: fun_eq_iff dead_hand_removes_def remove_frames_def)
      then show ?thesis
        using runs_proxy_peers[OF Cons.prems(1), of "Binary (serializeMessage env (RemoveUpdate arrayId i))"]
          True Some Cons.prems(3) dataClient_proxy[of self _ r]
        by (simp add: runs_def)
    next
      case False
      have "(\<lambda>a. if a = self then [] else remove_frames env (count_list ss a) ?these) = (\<lambda>a. [])"
        using False Some entry Cons.prems(3)
        by (auto simp: fun_eq_iff dead_hand_removes_def remove_frames_def)
      then show ?thesis using False Some Cons.prems(3) by (simp add: sends_refl)
    qed
  qed
  let ?r1 = "snd ?step"
  have s1: "sends r ?r1 (\<lambda>a. if a = self then [] else remove_frames env (count_list ss a) ?these)"
    using step by simp
  have ok1: "peers_send_ok ?r1 self" using Cons.prems(1) peers_send_ok_sends[OF s1] by simp
  have ss1: "sessions ?r1 = ss" using sessions_sends[OF s1] Cons.prems(2) by simp
  have dc1: "dataClient ?r1 = dc" using step by simp
  note ih = Cons.IH[OF ok1 ss1 dc1]
  have eq: "deadHands_loop env self (entry # entries) r = deadHands_loop env self entries ?r1"
    using step entry by (cases ?step) simp
  have "sends r (snd (deadHands_loop env self entries ?r1))
          (\<lambda>a. (if a = self then [] else remove_frames env (count_list ss a) ?these)
               @ (if a = self then [] else remove_frames env (count_list ss a) (dead_hand_removes dc entries)))"
    using sends_trans[OF s1] ih by (simp add: runs_def)
  moreover have "dead_hand_removes dc (entry # entries) = ?these @ dead_hand_removes dc entries"
    by (simp add: dead_hand_removes_def)
  then have "(\<lambda>a. (if a = self then [] else remove_frames env (count_list ss a) ?these)
               @ (if a = self then [] else remove_frames env (count_list ss a) (dead_hand_removes dc entries)))
      = (\<lambda>a. if a = self then [] else remove_frames env (count_list ss a) (dead_hand_removes dc (entry # entries)))"
    by (auto simp: fun_eq_iff remove_frames_append)
  ultimately show ?case using eq ih by (simp add: runs_def)
qed

text \<open>
  Claim C8, as amended. When a session terminates and no \<^verbatim>\<open>send\<close> to another session
  of the list throws, the close handler ends without an exception, and every other address
  is sent, once per listing in the session list, the serialized remove updates of the
  departing session's \<^verbatim>\<open>deadHands\<close> table in its order: for an entry with an
  \<^verbatim>\<open>arrayIndexId\<close>, the remove of that map if the array still contains the key and
  nothing otherwise, and for an entry without, the remove of every map currently in the
  array. The departing session is sent nothing, and the data client is left as it was.
\<close>

theorem dead_hand_cleanup:
  assumes "peers_send_ok r self"
  shows "fst (closeOrErrorHandler env self r) = None
     \<and> (\<forall>p. p \<noteq> self \<longrightarrow>
           received r (snd (closeOrErrorHandler env self r)) p
             = remove_frames env (count_list (sessions r) p)
                 (dead_hand_removes (dataClient r) (deadHands (heap r self))))
     \<and> received r (snd (closeOrErrorHandler env self r)) self = []
     \<and> dataClient (snd (closeOrErrorHandler env self r)) = dataClient r
     \<and> sessions (snd (closeOrErrorHandler env self r)) = filter (\<lambda>member. member \<noteq> self) (sessions r)
     \<and> quit (heap (snd (closeOrErrorHandler env self r)) self)"
proof -
  let ?ss = "filter (\<lambda>member. member \<noteq> self) (sessions r)"
  let ?r0 = "(update_session self (\<lambda>s. s\<lparr>quit := True\<rparr>) r)\<lparr>sessions := ?ss\<rparr>"
  let ?F = "\<lambda>a. if a = self then []
                else remove_frames env (count_list ?ss a) (dead_hand_removes (dataClient r) (deadHands (heap r self)))"
  have s0: "sent (heap ?r0 a) = sent (heap r a)" for a by (simp add: update_session_def)
  have "(\<lambda>a. \<not> sendThrows (heap ?r0 a)) = (\<lambda>a. \<not> sendThrows (heap r a))"
    by (simp add: update_session_def fun_eq_iff)
  then have ok0: "peers_send_ok ?r0 self" using assms by (simp add: peers_send_ok_def)
  have dh: "deadHands (heap ?r0 self) = deadHands (heap r self)" by (simp add: update_session_def)
  have l: "runs (deadHands_loop env self (deadHands (heap r self))) ?r0 ?F
       \<and> dataClient (snd (deadHands_loop env self (deadHands (heap r self)) ?r0)) = dataClient r"
    by (rule runs_deadHands_loop[OF ok0]) (simp_all add: update_session_def)
  let ?r1 = "snd (triggerDeadHands env self ?r0)"
  have t: "fst (triggerDeadHands env self ?r0) = None" and s1: "sends ?r0 ?r1 ?F"
    and d1: "dataClient ?r1 = dataClient r"
    using l dh by (simp_all add: triggerDeadHands_def runs_def)
  let ?r2 = "?r1\<lparr>lockClient := lockClient ?r1 @ [ServerUnlockSession self]\<rparr>"
  have a: "and_then (triggerDeadHands env self) (triggerUnlocks self) ?r0 = (None, ?r2)"
    using t by (cases "triggerDeadHands env self ?r0") (simp add: and_then_def triggerUnlocks_def)
  let ?r3 = "update_session self (\<lambda>s. s\<lparr>closeListener := False\<rparr>) ?r2"
  have c: "closeOrErrorHandler env self r = (None, ?r3)"
    using a by (simp add: closeOrErrorHandler_def)
  have sh: "shape ?r1 = shape ?r0" using s1 by (simp add: sends_def)
  have sent3: "sent (heap ?r3 a) = sent (heap r a) @ ?F a" for a
    using s1 s0[of a] by (simp add: sends_def update_session_def)
  have cnt: "p \<noteq> self \<Longrightarrow> count_list ?ss p = count_list (sessions r) p" for p
    by (simp add: count_list_filter)
  have ses3: "sessions ?r3 = ?ss"
    using shape_eqD(1)[OF sh] by (simp add: update_session_def)
  have q3: "quit (heap ?r3 self)"
    using shape_eqD(2)[OF sh, of self] by (simp add: update_session_def)
  have d3: "dataClient ?r3 = dataClient r" using d1 by (simp add: update_session_def)
  show ?thesis
    unfolding c using sent3 cnt ses3 q3 d3
    by (simp add: received_def)
qed

theorem dead_hand_cleanup_witness:
  "peers_send_ok room_ad_owned 1
   \<and> deadHands (heap room_ad_owned 1) = [(''worldApps'', ''worldApps'', None)]
   \<and> getKeys (dataClient room_ad_owned) ''worldApps'' = [''x1'', ''x2'']
   \<and> received room_ad_owned (snd (closeOrErrorHandler demo_env 1 room_ad_owned)) 4
       = [Binary (demo_serialize (RemoveUpdate ''worldApps'' ''x1'')),
          Binary (demo_serialize (RemoveUpdate ''worldApps'' ''x2''))]
   \<and> sessions (snd (closeOrErrorHandler demo_env 1 room_ad_owned)) = [4]"
proof -
  have ok: "peers_send_ok room_ad_owned 1" by code_simp
  have d: "deadHands (heap room_ad_owned 1) = [(''worldApps'', ''worldApps'', None)]" by code_simp
  have k: "getKeys (dataClient room_ad_owned) ''worldApps'' = [''x1'', ''x2'']" by code_simp
  have s: "sessions room_ad_owned = [1, 4]" by code_simp
  have e: "serializeMessage demo_env = demo_serialize" by (simp add: demo_env_def)
  from dead_hand_cleanup[OF ok, of demo_env]
  show ?thesis using ok d k s e
    by (simp add: dead_hand_removes_def remove_frames_def)
qed

lemma others_untouched_update_session: "a \<noteq> self \<Longrightarrow> heap (update_session self f r) a = heap r a"
  by (simp add: update_session_def)

text \<open>
  Claim C10. A session whose \<^verbatim>\<open>playerId\<close> query parameter is the empty string is treated
  by \<^verbatim>\<open>_sendJoinMessage\<close> as one without a player id: nothing is emitted and nothing is
  proxied. So when such a session attaches (with no frame buffered for replay), the
  connection of every other session is exactly as it was, and so is the data client.
\<close>

theorem empty_playerId_sends_no_join:
  assumes pid: "playerId (heap r self) = Some []" and q: "queue (heap r self) = []"
  shows "sendJoinMessage env self (Some []) r = (None, r)
     \<and> sendJoinMessage env self (Some []) r = sendJoinMessage env self None r
     \<and> (\<forall>a. a \<noteq> self \<longrightarrow> heap (snd (attach env fuel self r)) a = heap r a)
     \<and> dataClient (snd (attach env fuel self r)) = dataClient r"
proof (intro conjI allI impI)
  show "sendJoinMessage env self (Some []) r = (None, r)" by (simp add: sendJoinMessage_def)
  show "sendJoinMessage env self (Some []) r = sendJoinMessage env self None r"
    by (simp add: sendJoinMessage_def)
next
  let ?r0 = "r\<lparr>sessions := sessions r @ [self]\<rparr>"
  have main: "(\<forall>a. a \<noteq> self \<longrightarrow> heap (snd (attach env fuel self r)) a = heap r a)
      \<and> dataClient (snd (attach env fuel self r)) = dataClient r"
  proof (cases "sendThrows (heap r self)")
    case True
    then have "attach_setup env self r = (Some (Error ''send failed''), ?r0)"
      by (simp add: attach_setup_def and_then_def send_snapshots_result)
    then show ?thesis by (simp add: attach_def)
  next
    case False
    let ?rs = "deliver (\<lambda>a. if a = self then snapshots env ?r0 else []) ?r0"
    let ?rg = "register_data_listeners self ?rs"
    have p: "playerId (heap ?rg self) = Some []"
      using pid by (simp add: register_data_listeners_def update_session_def deliver_simps)
    have su: "attach_setup env self r = (None, ?rg)"
      using False p by (simp add: attach_setup_def and_then_def send_snapshots_result sendJoinMessage_def)
    let ?r2 = "register_socket_listeners self ?rg"
    have "queue (heap ?r2 self) = []"
      using q by (simp add: register_socket_listeners_def register_data_listeners_def update_session_def deliver_simps)
    then have rp: "replay env fuel self 0 ?r2 = (True, ?r2)" by (rule replay_empty)
    have at: "attach env fuel self r = (Returned, remove_pause self ?r2)"
      using su rp by (simp add: attach_def resumeWebsocket_def)
    have h: "heap (remove_pause self ?r2) a = heap r a" if "a \<noteq> self" for a
      using that
      by (simp add: remove_pause_def register_socket_listeners_def register_data_listeners_def
          update_session_def deliver_simps)
    have d: "dataClient (remove_pause self ?r2) = dataClient r"
      by (simp add: remove_pause_def register_socket_listeners_def register_data_listeners_def
          update_session_def deliver_simps)
    show ?thesis using at h d by simp
  qed
  show "dataClient (snd (attach env fuel self r)) = dataClient r" using main by simp
  fix a assume "a \<noteq> self"
  then show "heap (snd (attach env fuel self r)) a = heap r a" using main by simp
qed

theorem empty_playerId_sends_no_join_witness:
  "playerId (heap (accept_and_pause 5 (Some []) (room_ad\<lparr>heap := (heap room_ad)(5 := new_socket False)\<rparr>)) 5) = Some []
   \<and> queue (heap (accept_and_pause 5 (Some []) (room_ad\<lparr>heap := (heap room_ad)(5 := new_socket False)\<rparr>)) 5) = []
   \<and> sent (heap (snd (attach demo_env 0 5
        (accept_and_pause 5 (Some []) (room_ad\<lparr>heap := (heap room_ad)(5 := new_socket False)\<rparr>)))) 1)
       = sent (heap room_ad 1)
   \<and> emitted (dataClient (snd (attach demo_env 0 5
        (accept_and_pause 5 (Some []) (room_ad\<lparr>heap := (heap room_ad)(5 := new_socket False)\<rparr>)))))
       = emitted (dataClient room_ad)"
proof -
  let ?r = "accept_and_pause 5 (Some []) (room_ad\<lparr>heap := (heap room_ad)(5 := new_socket False)\<rparr>)"
  have p: "playerId (heap ?r 5) = Some []" and q: "queue (heap ?r 5) = []"
    by (simp_all add: accept_and_pause_def pauseWebSocket_def update_session_def)
  have h: "heap ?r 1 = heap room_ad 1" and d: "dataClient ?r = dataClient room_ad"
    by (simp_all add: accept_and_pause_def pauseWebSocket_def update_session_def)
  from empty_playerId_sends_no_join[OF p q, of demo_env 0]
  have "heap (snd (attach demo_env 0 5 ?r)) 1 = heap ?r 1"
    and "dataClient (snd (attach demo_env 0 5 ?r)) = dataClient ?r" by simp_all
  then show ?thesis using p q h d by simp
qed

subsection \<open>C3: single-flight initialisation of the room's clients\<close>














subsection \<open>C1: frames that arrive while the session is attached\<close>

lemma update_session_twice:
  "update_session a f (update_session a g r) = update_session a (\<lambda>s. f (g s)) r"
  by (simp add: update_session_def)

lemma fold_dispatch_buffers:
  assumes "messageListeners (heap r self) = [PauseOnmessage]"
  shows "fold (dispatchEvent env self) ds r = update_session self (\<lambda>s. s\<lparr>queue := queue s @ ds\<rparr>) r"
  using assms
proof (induction ds arbitrary: r)
  case Nil
  show ?case by (simp add: update_session_def)
next
  case (Cons d ds)
  let ?r' = "update_session self (\<lambda>s. s\<lparr>queue := queue s @ [d]\<rparr>) r"
  have d: "dispatchEvent env self d r = ?r'"
    using Cons.prems by (simp add: dispatchEvent_def)
  have ml: "messageListeners (heap ?r' self) = [PauseOnmessage]"
    using Cons.prems by (simp add: update_session_def)
  show ?case
    using Cons.IH[OF ml] d by (simp add: update_session_twice)
qed

lemma proxy_self_unchanged:
  "sent (heap (snd (proxyMessageToPeers self m r)) self) = sent (heap r self)"
proof -
  have "self \<notin> set (reached r (filter (\<lambda>s. s \<noteq> self) (sessions r)))"
    by (auto simp: reached_def dest: set_takeWhileD)
  then have "count_list (reached r (filter (\<lambda>s. s \<noteq> self) (sessions r))) self = 0"
    by (simp add: count_list_0_iff)
  then show ?thesis
    by (simp add: proxyMessageToPeers_def proxy_loop_result send_result_def deliver_simps)
qed

lemma sendJoinMessage_self_unchanged:
  "sent (heap (snd (sendJoinMessage env self pid r)) self) = sent (heap r self)"
proof (cases pid)
  case None
  then show ?thesis by (simp add: sendJoinMessage_def)
next
  case (Some p)
  show ?thesis
  proof (cases "p = []")
    case True
    then show ?thesis using Some by (simp add: sendJoinMessage_def)
  next
    case False
    obtain e r1 where em: "emitUpdate (Join p) r = (e, r1)" by (rule prod.exhaust)
    have "sends r r1 (\<lambda>a. [])" using emitUpdate_sends[of r "Join p"] em by simp
    then have s1: "sent (heap r1 self) = sent (heap r self)" by (simp add: sends_def)
    show ?thesis
    proof (cases e)
      case None
      then show ?thesis using Some False em s1
        by (simp add: sendJoinMessage_def and_then_def proxy_self_unchanged)
    next
      case (Some err)
      then show ?thesis using \<open>pid = Some p\<close> False em s1
        by (simp add: sendJoinMessage_def and_then_def)
    qed
  qed
qed

lemma attach_setup_self:
  assumes s0: "sent (heap r self) = []"
  shows "sent (heap (snd (attach_setup env self r)) self)
           = (if sendThrows (heap r self) then [] else snapshots env (r\<lparr>sessions := sessions r @ [self]\<rparr>))"
    and "fst (attach_setup env self r) = None \<Longrightarrow> \<not> sendThrows (heap r self)"
proof -
  let ?r0 = "r\<lparr>sessions := sessions r @ [self]\<rparr>"
  let ?rs = "deliver (\<lambda>a. if a = self then snapshots env ?r0 else []) ?r0"
  let ?rg = "register_data_listeners self ?rs"
  show "sent (heap (snd (attach_setup env self r)) self)
           = (if sendThrows (heap r self) then [] else snapshots env ?r0)"
  proof (cases "sendThrows (heap r self)")
    case True
    then have "attach_setup env self r = (Some (Error ''send failed''), ?r0)"
      by (simp add: attach_setup_def and_then_def send_snapshots_result)
    then show ?thesis using True s0 by simp
  next
    case False
    have su: "attach_setup env self r = sendJoinMessage env self (playerId (heap ?rg self)) ?rg"
      using False by (simp add: attach_setup_def and_then_def send_snapshots_result)
    have "sent (heap ?rg self) = snapshots env ?r0"
      using s0 by (simp add: register_data_listeners_def update_session_def deliver_simps)
    then show ?thesis using False su by (simp add: sendJoinMessage_self_unchanged)
  qed
  show "fst (attach_setup env self r) = None \<Longrightarrow> \<not> sendThrows (heap r self)"
    by (cases "sendThrows (heap r self)")
      (simp_all add: attach_setup_def and_then_def send_snapshots_result)
qed

lemma nth_replayed:
  assumes "arrivals \<noteq> []"
  shows "(arrivals @ replayed arrivals i) ! i = arrivals ! (i mod length arrivals)"
proof (cases "i < length arrivals")
  case True
  then show ?thesis by (simp add: nth_append)
next
  case False
  then have le: "length arrivals \<le> i" by simp
  have pos: "0 < length arrivals" using assms by simp
  have lt: "i - length arrivals < i" using le pos by arith
  have "(arrivals @ replayed arrivals i) ! i = replayed arrivals i ! (i - length arrivals)"
    using False by (simp add: nth_append)
  also have "\<dots> = arrivals ! ((i - length arrivals) mod length arrivals)"
    using lt by (simp add: replayed_def)
  also have "(i - length arrivals) mod length arrivals = i mod length arrivals"
    using le by (simp add: le_mod_geq)
  finally show ?thesis .
qed

lemma replay_dispatches:
  assumes "messageListeners (heap r self) = [PauseOnmessage, SessionOnmessage]"
    and "arrivals \<noteq> []"
    and "queue (heap r self) = arrivals @ replayed arrivals i"
  shows "replay env n self i r
           = (False, fold (dispatchEvent env self) (map (\<lambda>k. arrivals ! (k mod length arrivals)) [i..<i + n]) r)"
  using assms
proof (induction n arbitrary: i r)
  case 0
  have "i < length (queue (heap r self))" using 0 by (simp add: replayed_def)
  then show ?case by simp
next
  case (Suc n)
  let ?d = "arrivals ! (i mod length arrivals)"
  let ?r' = "dispatchEvent env self ?d r"
  have lt: "i < length (queue (heap r self))" using Suc.prems by (simp add: replayed_def)
  have d: "queue (heap r self) ! i = ?d"
    using nth_replayed[OF Suc.prems(2), of i] Suc.prems(3) by simp
  have ml: "messageListeners (heap ?r' self) = [PauseOnmessage, SessionOnmessage]"
    using shape_eqD(5)[OF shape_dispatchEvent, of env self ?d r self] Suc.prems(1) by simp
  have "queue (heap ?r' self) = queue (heap r self) @ [?d]"
    unfolding dispatchEvent_def run_listeners_queue using Suc.prems(1) by simp
  then have q: "queue (heap ?r' self) = arrivals @ replayed arrivals (Suc i)"
    using Suc.prems(3) by (simp add: replayed_def)
  have u: "[i..<i + Suc n] = i # [Suc i..<Suc i + n]"
    by (simp add: upt_conv_Cons)
  have "replay env (Suc n) self i r = replay env n self (Suc i) ?r'"
    using lt d by simp
  then show ?case
    using Suc.IH[OF ml Suc.prems(2) q] by (simp only: u list.map fold_simps)
qed

text \<open>
  Claim C1. The frames that reach the socket of a new session while \<^verbatim>\<open>handleSession\<close>
  waits for the room's clients are queued and have no other effect on the room. While the
  session is appended to the list, is sent the three snapshots and is announced to its
  peers, they stay in the queue, and only the queueing listener is registered. If a
  \<^verbatim>\<open>send\<close> of that part throws, \<^verbatim>\<open>handleSession\<close> ends with the exception and the
  frames are never dispatched. Otherwise \<^verbatim>\<open>send\<close> on the new socket has not thrown, the
  socket has been sent the three snapshots and nothing else, and only then is the
  steady-state listener registered and the queue dispatched to the listeners, frame by
  frame in its order. (The queueing listener is still registered during that loop, so every
  frame dispatched is queued again: on a queue that holds a frame the loop uses up whatever
  fuel it is given.) So whatever the new socket is ever sent begins with the three
  snapshots.
\<close>

theorem buffered_frames_replayed_after_snapshots:
  "let r0 = accept_and_pause self pid (r\<lparr>heap := (heap r)(self := new_socket throws)\<rparr>);
       r1 = fold (dispatchEvent env self) arrivals r0;
       shots = snapshots env (r1\<lparr>sessions := sessions r1 @ [self]\<rparr>);
       prep = attach_setup env self r1;
       r2 = register_socket_listeners self (snd prep);
       w' = snd (room_clients st roomName w);
       result = handleSession env st fuel arrivals self throws roomName pid (w, r)
   in r1 = update_session self (\<lambda>s. s\<lparr>queue := arrivals\<rparr>) r0
    \<and> queue (heap (snd prep) self) = arrivals
    \<and> messageListeners (heap (snd prep) self) = [PauseOnmessage]
    \<and> sent (heap (snd prep) self) = (if throws then [] else shots)
    \<and> (case fst prep of
         Some e \<Rightarrow> result = (Thrown e, w', snd prep)
       | None \<Rightarrow>
           \<not> throws
           \<and> messageListeners (heap r2 self) = [PauseOnmessage, SessionOnmessage]
           \<and> result = (if arrivals = [] then (Returned, w', remove_pause self r2)
                       else (Running, w', fold (dispatchEvent env self) (replayed arrivals fuel) r2)))
    \<and> (if throws then sent (heap (snd (snd result)) self) = []
        else (\<exists>rest. sent (heap (snd (snd result)) self) = shots @ rest))"
proof -
  define r0 where "r0 = accept_and_pause self pid (r\<lparr>heap := (heap r)(self := new_socket throws)\<rparr>)"
  define r1 where "r1 = fold (dispatchEvent env self) arrivals r0"
  define shots where "shots = snapshots env (r1\<lparr>sessions := sessions r1 @ [self]\<rparr>)"
  define prep where "prep = attach_setup env self r1"
  define r2 where "r2 = register_socket_listeners self (snd prep)"
  define w' where "w' = snd (room_clients st roomName w)"
  define result where "result = handleSession env st fuel arrivals self throws roomName pid (w, r)"
  have ml0: "messageListeners (heap r0 self) = [PauseOnmessage]"
    and q0: "queue (heap r0 self) = []" and s0: "sent (heap r0 self) = []"
    and t0: "sendThrows (heap r0 self) = throws"
    by (simp_all add: r0_def accept_and_pause_def pauseWebSocket_def update_session_def new_socket_def)
  have "r1 = update_session self (\<lambda>s. s\<lparr>queue := queue s @ arrivals\<rparr>) r0"
    unfolding r1_def by (rule fold_dispatch_buffers[OF ml0])
  then have c1: "r1 = update_session self (\<lambda>s. s\<lparr>queue := arrivals\<rparr>) r0"
    using q0 by (simp add: update_session_def)
  have ml1: "messageListeners (heap r1 self) = [PauseOnmessage]"
    and q1: "queue (heap r1 self) = arrivals" and s1: "sent (heap r1 self) = []"
    and t1: "sendThrows (heap r1 self) = throws"
    using ml0 s0 t0 by (simp_all add: c1 update_session_def)
  have c2: "queue (heap (snd prep) self) = arrivals"
    using quiet_queue[OF quiet_attach_setup, of env self r1 self] q1 by (simp add: prep_def)
  have "shape (snd prep) = shape (r1\<lparr>sessions := sessions r1 @ [self]\<rparr>)"
    unfolding prep_def by (rule shape_attach_setup)
  then have c3: "messageListeners (heap (snd prep) self) = [PauseOnmessage]"
    using shape_eqD(5)[of "snd prep" "r1\<lparr>sessions := sessions r1 @ [self]\<rparr>" self] ml1 by simp
  have c4: "sent (heap (snd prep) self) = (if throws then [] else shots)"
    using attach_setup_self(1)[OF s1, of env] t1 by (simp add: prep_def shots_def)
  have res: "result = (fst (attach env fuel self r1), w', snd (attach env fuel self r1))"
    by (cases "room_clients st roomName w"; cases "attach env fuel self r1")
      (simp add: result_def handleSession_def r1_def r0_def w'_def)
  have ml2: "messageListeners (heap r2 self) = [PauseOnmessage, SessionOnmessage]"
    using c3 by (simp add: r2_def register_socket_listeners_def update_session_def)
  have q2: "queue (heap r2 self) = arrivals"
    using c2 by (simp add: r2_def register_socket_listeners_def update_session_def)
  have s2: "sent (heap r2 self) = sent (heap (snd prep) self)"
    by (simp add: r2_def register_socket_listeners_def update_session_def)
  have thrown: "result = (Thrown e, w', snd prep)" if "fst prep = Some e" for e
  proof -
    have "attach_setup env self r1 = (Some e, snd prep)"
      using that by (simp add: prep_def prod_eq_iff)
    then show ?thesis by (simp add: res attach_def)
  qed
  have resumed: "result = (if arrivals = [] then (Returned, w', remove_pause self r2)
                       else (Running, w', fold (dispatchEvent env self) (replayed arrivals fuel) r2))"
    if "fst prep = None"
  proof -
    have su: "attach_setup env self r1 = (None, snd prep)"
      using that by (simp add: prep_def prod_eq_iff)
    show ?thesis
    proof (cases "arrivals = []")
      case True
      then have "replay env fuel self 0 r2 = (True, r2)" using q2 by (simp add: replay_empty)
      then show ?thesis using su True by (simp add: res attach_def resumeWebsocket_def r2_def)
    next
      case False
      have "queue (heap r2 self) = arrivals @ replayed arrivals 0" using q2 by (simp add: replayed_def)
      from replay_dispatches[OF ml2 False this, of env fuel]
      have "replay env fuel self 0 r2 = (False, fold (dispatchEvent env self) (replayed arrivals fuel) r2)"
        by (simp add: replayed_def)
      then show ?thesis using su False by (simp add: res attach_def resumeWebsocket_def r2_def)
    qed
  qed
  have c5: "case fst prep of
         Some e \<Rightarrow> result = (Thrown e, w', snd prep)
       | None \<Rightarrow>
           \<not> throws
           \<and> messageListeners (heap r2 self) = [PauseOnmessage, SessionOnmessage]
           \<and> result = (if arrivals = [] then (Returned, w', remove_pause self r2)
                       else (Running, w', fold (dispatchEvent env self) (replayed arrivals fuel) r2))"
  proof (cases "fst prep")
    case None
    have "\<not> throws" using attach_setup_self(2)[OF s1, of env] None t1 by (simp add: prep_def)
    then show ?thesis using None ml2 resumed by simp
  next
    case (Some e)
    then show ?thesis using thrown by simp
  qed
  have g: "sent_grows (snd prep) (snd (snd result))"
  proof (cases "fst prep")
    case (Some e)
    then show ?thesis using thrown by (simp add: sent_grows_refl)
  next
    case None
    have g1: "sent_grows (snd prep) r2"
      unfolding r2_def register_socket_listeners_def by (rule sent_grows_update_session) simp
    have g2: "sent_grows r2 (remove_pause self r2)"
      unfolding remove_pause_def by (rule sent_grows_update_session) simp
    have g3: "sent_grows r2 (fold (dispatchEvent env self) ds r2)" for ds
    proof (induction ds rule: rev_induct)
      case Nil
      show ?case by (simp add: sent_grows_refl)
    next
      case (snoc d ds)
      show ?case using sent_grows_trans[OF snoc sent_grows_dispatchEvent] by simp
    qed
    show ?thesis
      using resumed[OF None] sent_grows_trans[OF g1 g2] sent_grows_trans[OF g1 g3] by simp
  qed
  obtain rest where rest: "sent (heap (snd (snd result)) self) = sent (heap (snd prep) self) @ rest"
    using g unfolding sent_grows_def by blast
  have thr: "sent (heap (snd (snd result)) self) = []" if throws
  proof -
    have "fst prep \<noteq> None" using attach_setup_self(2)[OF s1, of env] t1 that by (auto simp: prep_def)
    then obtain e where "fst prep = Some e" by blast
    then show ?thesis using thrown[of e] c4 that by simp
  qed
  have c6: "if throws then sent (heap (snd (snd result)) self) = []
        else (\<exists>rest. sent (heap (snd (snd result)) self) = shots @ rest)"
    using thr rest c4 by auto
  show ?thesis
    using c1 c2 c3 c4 c5 c6
    unfolding Let_def r0_def[symmetric] r1_def[symmetric] shots_def[symmetric] prep_def[symmetric]
      r2_def[symmetric] w'_def[symmetric] result_def[symmetric]
    by blast
qed

theorem buffered_frames_replayed_after_snapshots_witness:
  "queue (heap (snd (attach_setup demo_env 2
       (fold (dispatchEvent demo_env 2) [ArrayBuffer [5, 9]]
          (accept_and_pause 2 (Some ''b'') (room_a\<lparr>heap := (heap room_a)(2 := new_socket False)\<rparr>))))) 2)
     = [ArrayBuffer [5, 9]]
   \<and> fst (handleSession demo_env demo_storage 2 [ArrayBuffer [5, 9]] 2 False ''r1'' (Some ''b'') (no_promises, room_a))
       = Running
   \<and> sent (heap (snd (snd (handleSession demo_env demo_storage 2 [ArrayBuffer [5, 9]] 2 False ''r1'' (Some ''b'')
        (no_promises, room_a)))) 2)
       = [Binary [1], Binary [2], Binary [3, 97, 0, 98, 0], Binary [5, 9], Binary [5, 9]]
   \<and> fst (handleSession demo_env demo_storage 2 [] 2 False ''r1'' (Some ''b'') (no_promises, room_a)) = Returned
   \<and> sent (heap (snd (snd (handleSession demo_env demo_storage 2 [] 2 False ''r1'' (Some ''b'')
        (no_promises, room_a)))) 2)
       = [Binary [1], Binary [2], Binary [3, 97, 0, 98, 0]]"
proof -
  note t = buffered_frames_replayed_after_snapshots[where self = 2 and pid = "Some ''b''" and r = room_a
      and throws = False and env = demo_env and arrivals = "[ArrayBuffer [5, 9]]" and st = demo_storage
      and fuel = 2 and roomName = "''r1''" and w = no_promises, unfolded Let_def]
  note q = conjunct1[OF conjunct2[OF t]]
  have a: "fst (handleSession demo_env demo_storage 2 [ArrayBuffer [5, 9]] 2 False ''r1'' (Some ''b'') (no_promises, room_a))
       = Running" by code_simp
  have b: "sent (heap (snd (snd (handleSession demo_env demo_storage 2 [ArrayBuffer [5, 9]] 2 False ''r1'' (Some ''b'')
        (no_promises, room_a)))) 2)
       = [Binary [1], Binary [2], Binary [3, 97, 0, 98, 0], Binary [5, 9], Binary [5, 9]]" by code_simp
  have c: "fst (handleSession demo_env demo_storage 2 [] 2 False ''r1'' (Some ''b'') (no_promises, room_a)) = Returned"
    by code_simp
  have d: "sent (heap (snd (snd (handleSession demo_env demo_storage 2 [] 2 False ''r1'' (Some ''b'')
        (no_promises, room_a)))) 2)
       = [Binary [1], Binary [2], Binary [3, 97, 0, 98, 0]]" by code_simp
  show ?thesis by (intro conjI) (rule q, rule a, rule b, rule c, rule d)
qed

subsection \<open>C5, C7 and C8: a send that throws, an event addressed to nobody\<close>

lemma reachable_room_c: "reachable demo_env room_c"
  unfolding room_c_def
  by (intro reachable.attach reachable.connect reachable.start)
    (simp_all add: empty_room_def accept_and_pause_def pauseWebSocket_def update_session_def new_socket_def)

lemma reachable_room_cd: "reachable demo_env room_cd"
  unfolding room_cd_def
  by (intro reachable.attach reachable.connect reachable_room_c) code_simp+

lemma reachable_room_abc_owned: "reachable demo_env room_abc_owned"
  unfolding room_abc_owned_def
  by (intro reachable.arrive reachable_room_abc) code_simp


text \<open>
  Claim C7 as stated fails. In the room of the players \<open>c\<close> and \<open>d\<close>, session 4 sends a
  data frame whose update is a \<^verbatim>\<open>deadhand\<close> event with the key \<open>bad..key\<close>, which
  matches neither pattern, addressed to player \<open>a\<close>. No listener is registered for that
  player id, so no listener looks at the keys: session 4 is sent no error message, and the
  frame is proxied to session 3.
\<close>

theorem malformed_key_unreported_counterexample:
  "sessions room_cd = [3, 4] \<and> dataListeners room_cd = [3, 4]
   \<and> playerId (heap room_cd 3) = Some ''c'' \<and> playerId (heap room_cd 4) = Some ''d''
   \<and> \<not> quit (heap room_cd 4) \<and> all_send_ok room_cd 4
   \<and> parseUpdateObject demo_env [20, 2] = Inr (20, [ArgBytes [2]])
   \<and> dataHandlesMethod demo_env 20
   \<and> fst (applyUint8Array demo_env [20, 2] (dataClient room_cd))
       = (None, Some (Deadhand [''worldApps.x1'', ''bad..key''] (Some ''a'')))
   \<and> match_deadhand_key ''bad..key'' = None
   \<and> sent (heap (session_onmessage demo_env 4 (ArrayBuffer [20, 2]) room_cd) 4) = sent (heap room_cd 4)
   \<and> received room_cd (session_onmessage demo_env 4 (ArrayBuffer [20, 2]) room_cd) 3 = [Binary [20, 2]]"
  by (intro conjI) code_simp+

text \<open>
  Claim C8 as stated fails. Session 1 holds the array \<open>worldApps\<close>, with the maps
  \<open>x1\<close> and \<open>x2\<close>, as a dead hand, and \<^verbatim>\<open>send\<close> on the socket of session 2 throws.
  When session 1 terminates, the first remove update is proxied to session 2 first: the
  exception ends the cleanup, session 3 (whose \<^verbatim>\<open>send\<close> works and which has not quit) is
  sent no remove update at all, and the lock client is not asked to release the locks of
  the session.
\<close>

theorem dead_hand_cleanup_aborted_counterexample:
  "sessions room_abc_owned = [1, 2, 3]
   \<and> closeListener (heap room_abc_owned 1)
   \<and> deadHands (heap room_abc_owned 1) = [(''worldApps'', ''worldApps'', None)]
   \<and> getKeys (dataClient room_abc_owned) ''worldApps'' = [''x1'', ''x2'']
   \<and> sendThrows (heap room_abc_owned 2) \<and> \<not> sendThrows (heap room_abc_owned 3) \<and> \<not> quit (heap room_abc_owned 3)
   \<and> fst (closeOrErrorHandler demo_env 1 room_abc_owned) = Some (Error ''send failed'')
   \<and> sessions (snd (closeOrErrorHandler demo_env 1 room_abc_owned)) = [2, 3]
   \<and> sent (heap (snd (closeOrErrorHandler demo_env 1 room_abc_owned)) 3) = sent (heap room_abc_owned 3)
   \<and> lockClient (snd (closeOrErrorHandler demo_env 1 room_abc_owned)) = lockClient room_abc_owned"
  by (intro conjI) code_simp+

end
